theory Spec2Isabelle
  imports Main
begin

section \<open>The Home component of ignite-timer: cycles and countdown\<close>

text \<open>
  The component \<open>Home\<close> keeps three pieces of React state (the list \<open>cycles\<close>, the
  \<open>activeCycleId\<close> and \<open>amountSecondsPassed\<close>) and owns one timer, the \<open>interval\<close>
  created by its first \<open>useEffect\<close>. Handlers and the timer callback are modelled as
  functions from the state before an event to the state after it. Every call of
  \<open>new Date()\<close> is an argument of the function that makes it: a \<open>Date\<close> is the integer
  that \<open>getTime()\<close> returns, the milliseconds since the epoch. Where \<open>new Date()\<close> stands
  inside the callback of a \<open>map\<close>, every call of the callback reads the clock by itself:
  the argument is then a function from the index of the element to the reading taken in
  the call on that element.
\<close>

subsection \<open>Data\<close>

type_synonym date = int

text \<open>The interface \<open>Cycle\<close>. An optional property that is absent is \<open>None\<close>. The
  number of minutes is an integer: it is read from a number input whose step is 5.\<close>

record cycle =
  id_cycle :: string
  task :: string
  minutesAmount :: int
  startDate :: date
  interruptedDate :: "date option"
  finishedDate :: "date option"

text \<open>
  What the callback passed to \<open>setInterval\<close> closes over: the constants \<open>activeCycle\<close>,
  \<open>totalSeconds\<close> and \<open>activeCycleId\<close> of the render that ran the effect.
\<close>

record closure =
  cl_activeCycle :: cycle
  cl_totalSeconds :: int
  cl_activeCycleId :: "string option"

text \<open>
  The state of the component. \<open>interval\<close> is \<open>None\<close> when no timer is pending (never set,
  or cleared by \<open>clearInterval\<close>).
\<close>

record home =
  cycles :: "cycle list"
  activeCycleId :: "string option"
  amountSecondsPassed :: int
  interval :: "closure option"

definition Home_init :: home where
  "Home_init = \<lparr>cycles = [], activeCycleId = None, amountSecondsPassed = 0, interval = None\<rparr>"

subsection \<open>Library functions the component calls\<close>

text \<open>
  \<open>differenceInSeconds\<close> of date-fns: the difference in milliseconds divided by 1000 and
  truncated towards zero.
\<close>

definition differenceInSeconds :: "date \<Rightarrow> date \<Rightarrow> int" where
  "differenceInSeconds dateLeft dateRight =
     (let diff = dateLeft - dateRight
      in if 0 \<le> diff then diff div 1000 else - ((- diff) div 1000))"

text \<open>The remainder operator \<open>%\<close> of JavaScript on integers: the sign of the dividend.\<close>

definition js_rem :: "int \<Rightarrow> int \<Rightarrow> int" where
  "js_rem a b = (if 0 \<le> a then a mod \<bar>b\<bar> else - ((- a) mod \<bar>b\<bar>))"

text \<open>\<open>String(n)\<close> for an integer \<open>n\<close> (below the magnitude where JavaScript switches to
  exponent notation): the decimal digits, with a minus sign for a negative number.\<close>

definition digit_char :: "nat \<Rightarrow> char" where
  "digit_char d = ''0123456789'' ! d"

function digits_of :: "nat \<Rightarrow> string" where
  "digits_of n = (if n < 10 then [digit_char n] else digits_of (n div 10) @ [digit_char (n mod 10)])"
  by pat_completeness auto
termination
  by (relation "measure (\<lambda>n. n)") auto

declare digits_of.simps [simp del]

definition String_number :: "int \<Rightarrow> string" where
  "String_number n = (if n < 0 then CHR ''-'' # digits_of (nat (- n)) else digits_of (nat n))"

text \<open>\<open>s.padStart(n, '0')\<close>.\<close>

definition padStart :: "string \<Rightarrow> nat \<Rightarrow> char \<Rightarrow> string" where
  "padStart s n c = replicate (n - length s) c @ s"

subsection \<open>Values derived in each render\<close>

text \<open>\<open>cycles.find((cycle) => cycle.id === activeCycleId)\<close>: the first cycle with that id.
  No id is \<open>null\<close>, so nothing is found while \<open>activeCycleId\<close> is \<open>null\<close>.\<close>

definition activeCycle :: "home \<Rightarrow> cycle option" where
  "activeCycle s = find (\<lambda>cycle. Some (id_cycle cycle) = activeCycleId s) (cycles s)"

definition totalSeconds :: "home \<Rightarrow> int" where
  "totalSeconds s = (case activeCycle s of Some c \<Rightarrow> minutesAmount c * 60 | None \<Rightarrow> 0)"

definition currentSeconds :: "home \<Rightarrow> int" where
  "currentSeconds s =
     (case activeCycle s of Some c \<Rightarrow> totalSeconds s - amountSecondsPassed s | None \<Rightarrow> 0)"

text \<open>The constants \<open>minutesAmount\<close> and \<open>secondsAmount\<close> of the render
  (\<open>Math.floor\<close> of the quotient is the floor division of \<open>int\<close>).\<close>

definition minutesAmount_render :: "home \<Rightarrow> int" where
  "minutesAmount_render s = currentSeconds s div 60"

definition secondsAmount :: "home \<Rightarrow> int" where
  "secondsAmount s = js_rem (currentSeconds s) 60"

definition minutes :: "home \<Rightarrow> string" where
  "minutes s = padStart (String_number (minutesAmount_render s)) 2 CHR ''0''"

definition seconds :: "home \<Rightarrow> string" where
  "seconds s = padStart (String_number (secondsAmount s)) 2 CHR ''0''"

text \<open>The text \<open>`${minutes}:${seconds}`\<close>, which the countdown shows digit by digit and the
  second effect writes to the document title.\<close>

definition display :: "home \<Rightarrow> string" where
  "display s = minutes s @ '':'' @ seconds s"

subsection \<open>The effect that owns the interval\<close>

text \<open>
  React runs the effect again (its cleanup, which clears the interval, then its body)
  when one of the dependencies \<open>activeCycle\<close>, \<open>totalSeconds\<close>, \<open>activeCycleId\<close> differs
  from the previous render under \<open>Object.is\<close>. Numbers and strings are compared by value,
  the cycle object by identity. An object spread \<open>{ ...cycle, ... }\<close> allocates a new
  object, so a \<open>map\<close> that rewrites the cycles whose id is \<open>target\<close> changes the
  dependency \<open>activeCycle\<close> exactly when the cycle found afterwards has that id:
  \<open>rewritten\<close>. No other update allocates an object that \<open>find\<close> can return in place of
  an equal one, so elsewhere identity and equality of the found cycle agree.
\<close>

definition rewritten :: "string option \<Rightarrow> home \<Rightarrow> bool" where
  "rewritten target s' =
     (case activeCycle s' of Some c \<Rightarrow> Some (id_cycle c) = target | None \<Rightarrow> False)"

definition deps_changed :: "home \<Rightarrow> bool \<Rightarrow> home \<Rightarrow> bool" where
  "deps_changed s fresh s' \<longleftrightarrow>
     fresh \<or> \<not> (activeCycle s' = activeCycle s \<and> totalSeconds s' = totalSeconds s
                  \<and> activeCycleId s' = activeCycleId s)"

definition useEffect_interval :: "home \<Rightarrow> bool \<Rightarrow> home \<Rightarrow> home" where
  "useEffect_interval s fresh s' =
     (if deps_changed s fresh s' then
        s'\<lparr>interval :=
             (case activeCycle s' of
                Some c \<Rightarrow> Some \<lparr>cl_activeCycle = c, cl_totalSeconds = totalSeconds s',
                                 cl_activeCycleId = activeCycleId s'\<rparr>
              | None \<Rightarrow> None)\<rparr>
      else s')"

subsection \<open>The timer callback and the handlers\<close>

text \<open>
  \<open>state.map(callback)\<close>: the callback is called once on every element, in order, and the
  results form the new list. The callback gets the index \<open>i\<close> of its element, which tells
  the calls apart: a clock reading taken inside the call on element \<open>i\<close> is \<open>now i\<close>.
\<close>

definition map_cycles :: "(nat \<Rightarrow> cycle \<Rightarrow> cycle) \<Rightarrow> cycle list \<Rightarrow> cycle list" where
  "map_cycles callback state = map (\<lambda>(i, cycle). callback i cycle) (enumerate 0 state)"

text \<open>
  The callback of \<open>setInterval\<close>. \<open>now\<close> is the \<open>new Date()\<close> passed to
  \<open>differenceInSeconds\<close>; \<open>now_finished i\<close> is the \<open>new Date()\<close> stored in \<open>finishedDate\<close> of
  the cycle at index \<open>i\<close>, evaluated only for a cycle of the active id. The updater given
  to \<open>setCycles\<close> maps over the current list; everything else is read from the closure.
  The finish branch calls \<open>clearInterval\<close>; it does not call \<open>setActiveCycleId\<close>.
\<close>

definition interval_callback :: "closure \<Rightarrow> date \<Rightarrow> (nat \<Rightarrow> date) \<Rightarrow> home \<Rightarrow> home" where
  "interval_callback cl now now_finished s =
     (let secondsDifference = differenceInSeconds now (startDate (cl_activeCycle cl))
      in if secondsDifference \<ge> cl_totalSeconds cl then
           s\<lparr>cycles :=
                map_cycles
                  (\<lambda>i cycle. if Some (id_cycle cycle) = cl_activeCycleId cl
                              then cycle\<lparr>finishedDate := Some (now_finished i)\<rparr> else cycle)
                  (cycles s),
             amountSecondsPassed := cl_totalSeconds cl,
             interval := None\<rparr>
         else s\<lparr>amountSecondsPassed := secondsDifference\<rparr>)"

text \<open>One firing of the timer followed by the render it causes. Nothing happens when no
  interval is pending.\<close>

definition tick :: "date \<Rightarrow> (nat \<Rightarrow> date) \<Rightarrow> home \<Rightarrow> home" where
  "tick now now_finished s =
     (case interval s of
        None \<Rightarrow> s
      | Some cl \<Rightarrow>
          (let s' = interval_callback cl now now_finished s
           in useEffect_interval s
                (differenceInSeconds now (startDate (cl_activeCycle cl)) \<ge> cl_totalSeconds cl
                   \<and> rewritten (cl_activeCycleId cl) s')
                s'))"

text \<open>\<open>handleCreateNewCycle\<close>: \<open>now_id\<close> is the \<open>new Date()\<close> whose \<open>getTime()\<close> becomes the
  id, \<open>now_start\<close> the one stored in \<open>startDate\<close>. There is no check of the current state.
  The call of \<open>reset\<close> clears the fields of the form, which are no part of this state.\<close>

definition newCycle :: "string \<Rightarrow> int \<Rightarrow> date \<Rightarrow> date \<Rightarrow> cycle" where
  "newCycle data_task data_minutesAmount now_id now_start =
     \<lparr>id_cycle = String_number now_id, task = data_task, minutesAmount = data_minutesAmount,
      startDate = now_start, interruptedDate = None, finishedDate = None\<rparr>"

definition handleCreateNewCycle_updates :: "string \<Rightarrow> int \<Rightarrow> date \<Rightarrow> date \<Rightarrow> home \<Rightarrow> home" where
  "handleCreateNewCycle_updates data_task data_minutesAmount now_id now_start s =
     s\<lparr>cycles := cycles s @ [newCycle data_task data_minutesAmount now_id now_start],
       activeCycleId := Some (String_number now_id),
       amountSecondsPassed := 0\<rparr>"

definition handleCreateNewCycle :: "string \<Rightarrow> int \<Rightarrow> date \<Rightarrow> date \<Rightarrow> home \<Rightarrow> home" where
  "handleCreateNewCycle data_task data_minutesAmount now_id now_start s =
     useEffect_interval s False
       (handleCreateNewCycle_updates data_task data_minutesAmount now_id now_start s)"

text \<open>\<open>handleInterruptCycle\<close>: \<open>now i\<close> is the \<open>new Date()\<close> stored in \<open>interruptedDate\<close> of the
  cycle at index \<open>i\<close>, evaluated only for a cycle of the active id.\<close>

definition handleInterruptCycle_updates :: "(nat \<Rightarrow> date) \<Rightarrow> home \<Rightarrow> home" where
  "handleInterruptCycle_updates now s =
     s\<lparr>cycles :=
          map_cycles
            (\<lambda>i cycle. if Some (id_cycle cycle) = activeCycleId s
                        then cycle\<lparr>interruptedDate := Some (now i)\<rparr> else cycle)
            (cycles s),
       activeCycleId := None\<rparr>"

definition handleInterruptCycle :: "(nat \<Rightarrow> date) \<Rightarrow> home \<Rightarrow> home" where
  "handleInterruptCycle now s =
     (let s' = handleInterruptCycle_updates now s
      in useEffect_interval s (rewritten (activeCycleId s) s') s')"

subsection \<open>What the user interface lets happen\<close>

text \<open>
  The schema \<open>newCycleFormValidationSchema\<close>, which \<open>handleSubmit\<close> checks before it calls
  \<open>handleCreateNewCycle\<close>.
\<close>

definition newCycleFormValidationSchema :: "string \<Rightarrow> int \<Rightarrow> bool" where
  "newCycleFormValidationSchema data_task data_minutesAmount \<longleftrightarrow>
     1 \<le> length data_task \<and> 5 \<le> data_minutesAmount \<and> data_minutesAmount \<le> 60"

text \<open>
  The events of the component. The form renders the submit button only while
  \<open>activeCycle\<close> is undefined (and disables both inputs otherwise); it renders the
  interrupt button only while \<open>activeCycle\<close> is defined; the timer fires only while an
  interval is pending. \<open>step\<close> is \<open>None\<close> for an event the interface does not offer.
\<close>

datatype event =
    Submit string int date date
  | Interrupt "nat \<Rightarrow> date"
  | Tick date "nat \<Rightarrow> date"

fun step :: "home \<Rightarrow> event \<Rightarrow> home option" where
  "step s (Submit data_task data_minutesAmount now_id now_start) =
     (if activeCycle s = None \<and> newCycleFormValidationSchema data_task data_minutesAmount
      then Some (handleCreateNewCycle data_task data_minutesAmount now_id now_start s)
      else None)"
| "step s (Interrupt now) =
     (if activeCycle s \<noteq> None then Some (handleInterruptCycle now s) else None)"
| "step s (Tick now now_finished) =
     (if interval s \<noteq> None then Some (tick now now_finished s) else None)"

fun run :: "home \<Rightarrow> event list \<Rightarrow> home option" where
  "run s [] = Some s"
| "run s (e # es) = (case step s e of None \<Rightarrow> None | Some s' \<Rightarrow> run s' es)"

text \<open>The states after each event of a list, up to the first event that is not offered.\<close>

fun run_trace :: "home \<Rightarrow> event list \<Rightarrow> home list" where
  "run_trace s [] = []"
| "run_trace s (e # es) = (case step s e of None \<Rightarrow> [] | Some s' \<Rightarrow> s' # run_trace s' es)"

subsection \<open>Predicates on states\<close>

text \<open>The pending interval, if any, closes over the values of the current render, and
  one is pending exactly while \<open>activeCycle\<close> is defined.\<close>

definition interval_current :: "home \<Rightarrow> bool" where
  "interval_current s \<longleftrightarrow>
     interval s = (case activeCycle s of
                     Some c \<Rightarrow> Some \<lparr>cl_activeCycle = c, cl_totalSeconds = totalSeconds s,
                                      cl_activeCycleId = activeCycleId s\<rparr>
                   | None \<Rightarrow> None)"

text \<open>A cycle is running while it has neither date.\<close>

definition running :: "cycle \<Rightarrow> bool" where
  "running c \<longleftrightarrow> interruptedDate c = None \<and> finishedDate c = None"

text \<open>What holds of the store in every state the interface can reach: a running cycle
  carries the id the Active Cycle Reference holds, at most one cycle is running, the
  reference is unset when nothing is found for it, and every cycle has a number of
  minutes the schema accepts.\<close>

definition store_inv :: "home \<Rightarrow> bool" where
  "store_inv s \<longleftrightarrow>
     (\<forall>c\<in>set (cycles s). running c \<longrightarrow> activeCycleId s = Some (id_cycle c))
     \<and> length (filter running (cycles s)) \<le> 1
     \<and> (activeCycle s = None \<longrightarrow> activeCycleId s = None)
     \<and> (\<forall>c\<in>set (cycles s). 5 \<le> minutesAmount c \<and> minutesAmount c \<le> 60)"

section \<open>Basic properties of the operations\<close>

lemma useEffect_interval_fields [simp]:
  "cycles (useEffect_interval s fresh s') = cycles s'"
  "activeCycleId (useEffect_interval s fresh s') = activeCycleId s'"
  "amountSecondsPassed (useEffect_interval s fresh s') = amountSecondsPassed s'"
  by (simp_all add: useEffect_interval_def)

lemma activeCycle_cong:
  "cycles s' = cycles s \<Longrightarrow> activeCycleId s' = activeCycleId s \<Longrightarrow> activeCycle s' = activeCycle s"
  by (simp add: activeCycle_def)

lemma activeCycle_interval_update [simp]:
  "activeCycle (s\<lparr>interval := x\<rparr>) = activeCycle s"
  by (simp add: activeCycle_def)

lemma totalSeconds_interval_update [simp]:
  "totalSeconds (s\<lparr>interval := x\<rparr>) = totalSeconds s"
  by (simp add: totalSeconds_def)

lemma activeCycle_useEffect [simp]:
  "activeCycle (useEffect_interval s fresh s') = activeCycle s'"
  by (simp add: activeCycle_def)

lemma totalSeconds_useEffect [simp]:
  "totalSeconds (useEffect_interval s fresh s') = totalSeconds s'"
  by (simp add: totalSeconds_def)

lemma activeCycle_SomeD:
  assumes "activeCycle s = Some c"
  shows "c \<in> set (cycles s)" and "activeCycleId s = Some (id_cycle c)"
  using assms by (auto simp: activeCycle_def find_Some_iff)

lemma activeCycle_None_iff:
  "activeCycle s = None \<longleftrightarrow> (\<forall>c\<in>set (cycles s). Some (id_cycle c) \<noteq> activeCycleId s)"
  by (auto simp: activeCycle_def find_None_iff)

text \<open>Mapping with a callback that knows its index\<close>

lemma length_map_cycles [simp]: "length (map_cycles f cs) = length cs"
  by (simp add: map_cycles_def)

lemma nth_map_cycles: "i < length cs \<Longrightarrow> map_cycles f cs ! i = f i (cs ! i)"
  by (simp add: map_cycles_def nth_enumerate_eq)

lemma in_set_map_cycles:
  assumes "c' \<in> set (map_cycles f cs)"
  shows "\<exists>i<length cs. c' = f i (cs ! i)"
proof -
  from assms obtain i where "i < length (map_cycles f cs)" "map_cycles f cs ! i = c'"
    by (auto simp: in_set_conv_nth)
  then show ?thesis
    by (auto simp: nth_map_cycles)
qed

lemma find_enumerate_preserving:
  assumes "\<And>i x. P (f i x) = P x"
  shows "\<exists>k. find P (map (\<lambda>(i, x). f i x) (enumerate n xs)) = map_option (f k) (find P xs)"
proof (induction xs arbitrary: n)
  case Nil
  then show ?case by simp
next
  case (Cons x xs)
  show ?case
  proof (cases "P x")
    case True
    then have "find P (map (\<lambda>(i, x). f i x) (enumerate n (x # xs)))
                 = map_option (f n) (find P (x # xs))"
      by (simp add: assms)
    then show ?thesis ..
  next
    case False
    from Cons.IH [of "Suc n"] obtain k
      where "find P (map (\<lambda>(i, x). f i x) (enumerate (Suc n) xs)) = map_option (f k) (find P xs)" ..
    with False have "find P (map (\<lambda>(i, x). f i x) (enumerate n (x # xs)))
                 = map_option (f k) (find P (x # xs))"
      by (simp add: assms)
    then show ?thesis ..
  qed
qed

lemma map_cycles_unchanged:
  assumes "\<forall>c\<in>set cs. \<not> P c"
  shows "map_cycles (\<lambda>i c. if P c then g i c else c) cs = cs"
  using assms by (intro nth_equalityI) (simp_all add: nth_map_cycles)

text \<open>Effects of creation\<close>

lemma create_fields [simp]:
  "cycles (handleCreateNewCycle t m n1 n2 s) = cycles s @ [newCycle t m n1 n2]"
  "activeCycleId (handleCreateNewCycle t m n1 n2 s) = Some (String_number n1)"
  "amountSecondsPassed (handleCreateNewCycle t m n1 n2 s) = 0"
  by (simp_all add: handleCreateNewCycle_def handleCreateNewCycle_updates_def)

lemma interrupt_fields [simp]:
  "cycles (handleInterruptCycle now s) =
     map_cycles (\<lambda>i cycle. if Some (id_cycle cycle) = activeCycleId s
                   then cycle\<lparr>interruptedDate := Some (now i)\<rparr> else cycle) (cycles s)"
  "activeCycleId (handleInterruptCycle now s) = None"
  "amountSecondsPassed (handleInterruptCycle now s) = amountSecondsPassed s"
  by (simp_all add: handleInterruptCycle_def handleInterruptCycle_updates_def Let_def)

lemma activeCycle_interrupt [simp]: "activeCycle (handleInterruptCycle now s) = None"
  by (simp add: activeCycle_None_iff)

text \<open>The pending interval is always the one of the current render.\<close>

lemma interval_current_useEffect:
  assumes "interval_current s" and "\<not> fresh \<Longrightarrow> interval s' = interval s"
  shows "interval_current (useEffect_interval s fresh s')"
proof (cases "deps_changed s fresh s'")
  case True
  then show ?thesis
    by (simp add: interval_current_def useEffect_interval_def split: option.split)
next
  case False
  then have "activeCycle s' = activeCycle s" "totalSeconds s' = totalSeconds s"
    "activeCycleId s' = activeCycleId s" "interval s' = interval s"
    using assms(2) by (auto simp: deps_changed_def)
  with False assms(1) show ?thesis
    by (simp add: interval_current_def useEffect_interval_def split: option.split)
qed

lemma interval_current_create:
  "interval_current s \<Longrightarrow> interval_current (handleCreateNewCycle t m n1 n2 s)"
  unfolding handleCreateNewCycle_def
  by (rule interval_current_useEffect) (simp_all add: handleCreateNewCycle_updates_def)

lemma interval_current_interrupt:
  "interval_current s \<Longrightarrow> interval_current (handleInterruptCycle now s)"
  unfolding handleInterruptCycle_def Let_def
  by (rule interval_current_useEffect) (simp_all add: handleInterruptCycle_updates_def)

text \<open>Effects of one firing of the timer\<close>

lemma useEffect_interval_fresh:
  "activeCycle s' = Some c' \<Longrightarrow>
   useEffect_interval s True s' =
     s'\<lparr>interval := Some \<lparr>cl_activeCycle = c', cl_totalSeconds = totalSeconds s',
                             cl_activeCycleId = activeCycleId s'\<rparr>\<rparr>"
  by (simp add: useEffect_interval_def deps_changed_def)

lemma useEffect_interval_same:
  "activeCycle s' = activeCycle s \<Longrightarrow> totalSeconds s' = totalSeconds s \<Longrightarrow>
   activeCycleId s' = activeCycleId s \<Longrightarrow> useEffect_interval s False s' = s'"
  by (simp add: useEffect_interval_def deps_changed_def)

lemma activeCycle_map_cycles:
  assumes "\<And>i c. id_cycle (f i c) = id_cycle c"
  shows "\<exists>k. activeCycle (s\<lparr>cycles := map_cycles f (cycles s)\<rparr>) = map_option (f k) (activeCycle s)"
proof -
  have "\<exists>k. find (\<lambda>cycle. Some (id_cycle cycle) = activeCycleId s)
              (map (\<lambda>(i, x). f i x) (enumerate 0 (cycles s)))
            = map_option (f k) (find (\<lambda>cycle. Some (id_cycle cycle) = activeCycleId s) (cycles s))"
    by (rule find_enumerate_preserving) (simp add: assms)
  then show ?thesis
    by (simp add: activeCycle_def map_cycles_def)
qed

lemma tick_current:
  assumes "interval_current s" and "activeCycle s = Some c"
  shows "\<exists>k. tick now now_finished s =
     (if differenceInSeconds now (startDate c) \<ge> minutesAmount c * 60 then
        s\<lparr>cycles := map_cycles
                       (\<lambda>i cycle. if Some (id_cycle cycle) = activeCycleId s
                                   then cycle\<lparr>finishedDate := Some (now_finished i)\<rparr>
                                   else cycle)
                       (cycles s),
          amountSecondsPassed := minutesAmount c * 60,
          interval := Some \<lparr>cl_activeCycle = c\<lparr>finishedDate := Some (now_finished k)\<rparr>,
                            cl_totalSeconds = minutesAmount c * 60,
                            cl_activeCycleId = activeCycleId s\<rparr>\<rparr>
      else s\<lparr>amountSecondsPassed := differenceInSeconds now (startDate c)\<rparr>)"
proof -
  let ?f = "\<lambda>i cycle. if Some (id_cycle cycle) = activeCycleId s
                    then cycle\<lparr>finishedDate := Some (now_finished i)\<rparr> else cycle"
  let ?d = "differenceInSeconds now (startDate c)"
  let ?cl = "\<lparr>cl_activeCycle = c, cl_totalSeconds = minutesAmount c * 60,
              cl_activeCycleId = activeCycleId s\<rparr>"
  have ref: "activeCycleId s = Some (id_cycle c)"
    using assms(2) by (rule activeCycle_SomeD)
  have total: "totalSeconds s = minutesAmount c * 60"
    using assms(2) by (simp add: totalSeconds_def)
  have iv: "interval s = Some ?cl"
    using assms by (simp add: interval_current_def total)
  show ?thesis
  proof (cases "?d \<ge> minutesAmount c * 60")
    case True
    let ?s' = "s\<lparr>cycles := map_cycles ?f (cycles s), amountSecondsPassed := minutesAmount c * 60,
                  interval := None\<rparr>"
    have cb: "interval_callback ?cl now now_finished s = ?s'"
      using True by (simp add: interval_callback_def)
    have "\<exists>k. activeCycle (s\<lparr>cycles := map_cycles ?f (cycles s)\<rparr>)
                      = map_option (?f k) (activeCycle s)"
      by (rule activeCycle_map_cycles) simp
    then obtain k where "activeCycle (s\<lparr>cycles := map_cycles ?f (cycles s)\<rparr>)
                      = map_option (?f k) (activeCycle s)" ..
    then have "activeCycle ?s' = map_option (?f k) (activeCycle s)"
      by (simp add: activeCycle_def)
    then have ac: "activeCycle ?s' = Some (c\<lparr>finishedDate := Some (now_finished k)\<rparr>)"
      using assms(2) ref by simp
    then have rw: "rewritten (activeCycleId s) ?s'"
      using ref by (simp add: rewritten_def)
    have ts: "totalSeconds ?s' = minutesAmount c * 60"
      using ac by (simp add: totalSeconds_def)
    have "tick now now_finished s = useEffect_interval s True ?s'"
      using iv cb True rw by (simp add: tick_def)
    also have "\<dots> = ?s'\<lparr>interval := Some \<lparr>cl_activeCycle = c\<lparr>finishedDate := Some (now_finished k)\<rparr>,
                            cl_totalSeconds = totalSeconds ?s',
                            cl_activeCycleId = activeCycleId ?s'\<rparr>\<rparr>"
      using ac by (rule useEffect_interval_fresh)
    finally have "tick now now_finished s =
        s\<lparr>cycles := map_cycles ?f (cycles s),
          amountSecondsPassed := minutesAmount c * 60,
          interval := Some \<lparr>cl_activeCycle = c\<lparr>finishedDate := Some (now_finished k)\<rparr>,
                            cl_totalSeconds = minutesAmount c * 60,
                            cl_activeCycleId = activeCycleId s\<rparr>\<rparr>"
      using ts by simp
    then show ?thesis using True by auto
  next
    case False
    let ?s' = "s\<lparr>amountSecondsPassed := ?d\<rparr>"
    have cb: "interval_callback ?cl now now_finished s = ?s'"
      using False by (simp add: interval_callback_def)
    have same: "activeCycle ?s' = activeCycle s" "totalSeconds ?s' = totalSeconds s"
      by (simp_all add: activeCycle_def totalSeconds_def)
    have "tick now now_finished s = useEffect_interval s False ?s'"
      using iv cb False by (simp add: tick_def)
    also have "\<dots> = ?s'"
      using same by (simp add: useEffect_interval_same)
    finally show ?thesis using False by simp
  qed
qed

lemma tick_fields:
  assumes "interval_current s" and "activeCycle s = Some c"
  shows "cycles (tick now now_finished s) =
           (if differenceInSeconds now (startDate c) \<ge> minutesAmount c * 60
            then map_cycles
                   (\<lambda>i cycle. if Some (id_cycle cycle) = activeCycleId s
                               then cycle\<lparr>finishedDate := Some (now_finished i)\<rparr> else cycle)
                   (cycles s)
            else cycles s)"
    and "amountSecondsPassed (tick now now_finished s) =
           (if differenceInSeconds now (startDate c) \<ge> minutesAmount c * 60
            then minutesAmount c * 60 else differenceInSeconds now (startDate c))"
    and "activeCycleId (tick now now_finished s) = activeCycleId s"
    and "interval (tick now now_finished s) \<noteq> None"
proof -
  from tick_current [OF assms, of now now_finished] obtain k where
    k: "tick now now_finished s =
     (if differenceInSeconds now (startDate c) \<ge> minutesAmount c * 60 then
        s\<lparr>cycles := map_cycles
                       (\<lambda>i cycle. if Some (id_cycle cycle) = activeCycleId s
                                   then cycle\<lparr>finishedDate := Some (now_finished i)\<rparr>
                                   else cycle)
                       (cycles s),
          amountSecondsPassed := minutesAmount c * 60,
          interval := Some \<lparr>cl_activeCycle = c\<lparr>finishedDate := Some (now_finished k)\<rparr>,
                            cl_totalSeconds = minutesAmount c * 60,
                            cl_activeCycleId = activeCycleId s\<rparr>\<rparr>
      else s\<lparr>amountSecondsPassed := differenceInSeconds now (startDate c)\<rparr>)" ..
  have iv: "interval s \<noteq> None"
    using assms by (simp add: interval_current_def)
  show "cycles (tick now now_finished s) =
           (if differenceInSeconds now (startDate c) \<ge> minutesAmount c * 60
            then map_cycles
                   (\<lambda>i cycle. if Some (id_cycle cycle) = activeCycleId s
                               then cycle\<lparr>finishedDate := Some (now_finished i)\<rparr> else cycle)
                   (cycles s)
            else cycles s)"
    by (simp add: k)
  show "amountSecondsPassed (tick now now_finished s) =
           (if differenceInSeconds now (startDate c) \<ge> minutesAmount c * 60
            then minutesAmount c * 60 else differenceInSeconds now (startDate c))"
    by (simp add: k)
  show "activeCycleId (tick now now_finished s) = activeCycleId s"
    by (simp add: k)
  show "interval (tick now now_finished s) \<noteq> None"
    using iv by (simp add: k)
qed

lemma interval_current_tick:
  assumes "interval_current s"
  shows "interval_current (tick now now_finished s)"
proof (cases "activeCycle s")
  case None
  then have "interval s = None"
    using assms by (simp add: interval_current_def)
  then show ?thesis using assms by (simp add: tick_def)
next
  case (Some c)
  let ?f = "\<lambda>i cycle. if Some (id_cycle cycle) = activeCycleId s
                    then cycle\<lparr>finishedDate := Some (now_finished i)\<rparr> else cycle"
  have ref: "activeCycleId s = Some (id_cycle c)"
    using Some by (rule activeCycle_SomeD)
  from tick_current [OF assms Some, of now now_finished] obtain k where
    k: "tick now now_finished s =
     (if differenceInSeconds now (startDate c) \<ge> minutesAmount c * 60 then
        s\<lparr>cycles := map_cycles ?f (cycles s),
          amountSecondsPassed := minutesAmount c * 60,
          interval := Some \<lparr>cl_activeCycle = c\<lparr>finishedDate := Some (now_finished k)\<rparr>,
                            cl_totalSeconds = minutesAmount c * 60,
                            cl_activeCycleId = activeCycleId s\<rparr>\<rparr>
      else s\<lparr>amountSecondsPassed := differenceInSeconds now (startDate c)\<rparr>)" ..
  show ?thesis
  proof (cases "differenceInSeconds now (startDate c) \<ge> minutesAmount c * 60")
    case True
    let ?s' = "s\<lparr>cycles := map_cycles ?f (cycles s), amountSecondsPassed := minutesAmount c * 60,
                  interval := None\<rparr>"
    let ?cl = "\<lparr>cl_activeCycle = c, cl_totalSeconds = minutesAmount c * 60,
                cl_activeCycleId = activeCycleId s\<rparr>"
    have total: "totalSeconds s = minutesAmount c * 60"
      using Some by (simp add: totalSeconds_def)
    have iv: "interval s = Some ?cl"
      using assms Some by (simp add: interval_current_def total)
    have cb: "interval_callback ?cl now now_finished s = ?s'"
      using True by (simp add: interval_callback_def)
    have "\<exists>k. activeCycle (s\<lparr>cycles := map_cycles ?f (cycles s)\<rparr>)
                      = map_option (?f k) (activeCycle s)"
      by (rule activeCycle_map_cycles) simp
    then obtain j where "activeCycle (s\<lparr>cycles := map_cycles ?f (cycles s)\<rparr>)
                      = map_option (?f j) (activeCycle s)" ..
    then have "activeCycle ?s' = map_option (?f j) (activeCycle s)"
      by (simp add: activeCycle_def)
    then have "rewritten (activeCycleId s) ?s'"
      using Some ref by (simp add: rewritten_def)
    then have "tick now now_finished s = useEffect_interval s True ?s'"
      using iv cb True by (simp add: tick_def)
    moreover have "interval_current (useEffect_interval s True ?s')"
      using assms by (rule interval_current_useEffect) simp
    ultimately show ?thesis by simp
  next
    case False
    have "totalSeconds s = minutesAmount c * 60"
      using Some by (simp add: totalSeconds_def)
    with False assms Some show ?thesis
      unfolding k
      by (simp add: interval_current_def activeCycle_def totalSeconds_def)
  qed
qed

lemma interval_current_init: "interval_current Home_init"
  by (simp add: interval_current_def Home_init_def activeCycle_def)

lemma interval_current_step:
  "interval_current s \<Longrightarrow> step s e = Some s' \<Longrightarrow> interval_current s'"
  by (cases e)
    (auto simp: interval_current_create interval_current_interrupt interval_current_tick
      split: if_splits)

lemma interval_current_run:
  "interval_current s \<Longrightarrow> run s es = Some s' \<Longrightarrow> interval_current s'"
proof (induction es arbitrary: s)
  case Nil
  then show ?case by simp
next
  case (Cons e es)
  then show ?case
    by (auto split: option.splits dest: interval_current_step)
qed

section \<open>The scenario of a five-minute cycle\<close>

text \<open>A cycle of five minutes is created at time 0. The lemmas below evaluate the events
  that follow, one event each.\<close>

lemma String_number_0: "String_number 0 = ''0''"
  by (simp add: String_number_def digit_char_def digits_of.simps)

lemma String_number_7: "String_number 7 = ''7''"
  by (simp add: String_number_def digit_char_def digits_of.simps)

lemmas eval_defs = handleCreateNewCycle_def handleCreateNewCycle_updates_def newCycle_def
  handleInterruptCycle_def handleInterruptCycle_updates_def tick_def interval_callback_def
  map_cycles_def differenceInSeconds_def useEffect_interval_def deps_changed_def rewritten_def
  activeCycle_def totalSeconds_def newCycleFormValidationSchema_def

lemma ex_created:
  "step Home_init (Submit ''a'' 5 0 0) =
     Some \<lparr>cycles = [\<lparr>id_cycle = ''0'', task = ''a'', minutesAmount = 5, startDate = 0,
                       interruptedDate = None, finishedDate = None\<rparr>],
           activeCycleId = Some ''0'', amountSecondsPassed = 0,
           interval = Some \<lparr>cl_activeCycle =
                               \<lparr>id_cycle = ''0'', task = ''a'', minutesAmount = 5, startDate = 0,
                                interruptedDate = None, finishedDate = None\<rparr>,
                             cl_totalSeconds = 300, cl_activeCycleId = Some ''0''\<rparr>\<rparr>"
  by (simp add: Home_init_def eval_defs String_number_0)

lemma ex_finished:
  "step \<lparr>cycles = [\<lparr>id_cycle = ''0'', task = ''a'', minutesAmount = 5, startDate = 0,
                       interruptedDate = None, finishedDate = None\<rparr>],
           activeCycleId = Some ''0'', amountSecondsPassed = 0,
           interval = Some \<lparr>cl_activeCycle =
                               \<lparr>id_cycle = ''0'', task = ''a'', minutesAmount = 5, startDate = 0,
                                interruptedDate = None, finishedDate = None\<rparr>,
                             cl_totalSeconds = 300, cl_activeCycleId = Some ''0''\<rparr>\<rparr>
        (Tick 300000 (\<lambda>i. 300000)) =
     Some \<lparr>cycles = [\<lparr>id_cycle = ''0'', task = ''a'', minutesAmount = 5, startDate = 0,
                       interruptedDate = None, finishedDate = Some 300000\<rparr>],
           activeCycleId = Some ''0'', amountSecondsPassed = 300,
           interval = Some \<lparr>cl_activeCycle =
                               \<lparr>id_cycle = ''0'', task = ''a'', minutesAmount = 5, startDate = 0,
                                interruptedDate = None, finishedDate = Some 300000\<rparr>,
                             cl_totalSeconds = 300, cl_activeCycleId = Some ''0''\<rparr>\<rparr>"
  by (simp add: eval_defs)

lemma ex_finished_again:
  "step \<lparr>cycles = [\<lparr>id_cycle = ''0'', task = ''a'', minutesAmount = 5, startDate = 0,
                       interruptedDate = None, finishedDate = Some 300000\<rparr>],
           activeCycleId = Some ''0'', amountSecondsPassed = 300,
           interval = Some \<lparr>cl_activeCycle =
                               \<lparr>id_cycle = ''0'', task = ''a'', minutesAmount = 5, startDate = 0,
                                interruptedDate = None, finishedDate = Some 300000\<rparr>,
                             cl_totalSeconds = 300, cl_activeCycleId = Some ''0''\<rparr>\<rparr>
        (Tick 301000 (\<lambda>i. 301000)) =
     Some \<lparr>cycles = [\<lparr>id_cycle = ''0'', task = ''a'', minutesAmount = 5, startDate = 0,
                       interruptedDate = None, finishedDate = Some 301000\<rparr>],
           activeCycleId = Some ''0'', amountSecondsPassed = 300,
           interval = Some \<lparr>cl_activeCycle =
                               \<lparr>id_cycle = ''0'', task = ''a'', minutesAmount = 5, startDate = 0,
                                interruptedDate = None, finishedDate = Some 301000\<rparr>,
                             cl_totalSeconds = 300, cl_activeCycleId = Some ''0''\<rparr>\<rparr>"
  by (simp add: eval_defs)

lemma ex_finished_interrupt:
  "step \<lparr>cycles = [\<lparr>id_cycle = ''0'', task = ''a'', minutesAmount = 5, startDate = 0,
                       interruptedDate = None, finishedDate = Some 300000\<rparr>],
           activeCycleId = Some ''0'', amountSecondsPassed = 300,
           interval = Some \<lparr>cl_activeCycle =
                               \<lparr>id_cycle = ''0'', task = ''a'', minutesAmount = 5, startDate = 0,
                                interruptedDate = None, finishedDate = Some 300000\<rparr>,
                             cl_totalSeconds = 300, cl_activeCycleId = Some ''0''\<rparr>\<rparr>
        (Interrupt (\<lambda>i. 301000)) =
     Some \<lparr>cycles = [\<lparr>id_cycle = ''0'', task = ''a'', minutesAmount = 5, startDate = 0,
                       interruptedDate = Some 301000, finishedDate = Some 300000\<rparr>],
           activeCycleId = None, amountSecondsPassed = 300, interval = None\<rparr>"
  by (simp add: eval_defs)

lemma run_created:
  "run Home_init [Submit ''a'' 5 0 0] =
     Some \<lparr>cycles = [\<lparr>id_cycle = ''0'', task = ''a'', minutesAmount = 5, startDate = 0,
                       interruptedDate = None, finishedDate = None\<rparr>],
           activeCycleId = Some ''0'', amountSecondsPassed = 0,
           interval = Some \<lparr>cl_activeCycle =
                               \<lparr>id_cycle = ''0'', task = ''a'', minutesAmount = 5, startDate = 0,
                                interruptedDate = None, finishedDate = None\<rparr>,
                             cl_totalSeconds = 300, cl_activeCycleId = Some ''0''\<rparr>\<rparr>"
  by (simp add: ex_created del: step.simps)

lemma run_finished:
  "run Home_init [Submit ''a'' 5 0 0, Tick 300000 (\<lambda>i. 300000)] =
     Some \<lparr>cycles = [\<lparr>id_cycle = ''0'', task = ''a'', minutesAmount = 5, startDate = 0,
                       interruptedDate = None, finishedDate = Some 300000\<rparr>],
           activeCycleId = Some ''0'', amountSecondsPassed = 300,
           interval = Some \<lparr>cl_activeCycle =
                               \<lparr>id_cycle = ''0'', task = ''a'', minutesAmount = 5, startDate = 0,
                                interruptedDate = None, finishedDate = Some 300000\<rparr>,
                             cl_totalSeconds = 300, cl_activeCycleId = Some ''0''\<rparr>\<rparr>"
  by (simp add: ex_created ex_finished del: step.simps)

lemma run_finished_again:
  "run Home_init [Submit ''a'' 5 0 0, Tick 300000 (\<lambda>i. 300000), Tick 301000 (\<lambda>i. 301000)] =
     Some \<lparr>cycles = [\<lparr>id_cycle = ''0'', task = ''a'', minutesAmount = 5, startDate = 0,
                       interruptedDate = None, finishedDate = Some 301000\<rparr>],
           activeCycleId = Some ''0'', amountSecondsPassed = 300,
           interval = Some \<lparr>cl_activeCycle =
                               \<lparr>id_cycle = ''0'', task = ''a'', minutesAmount = 5, startDate = 0,
                                interruptedDate = None, finishedDate = Some 301000\<rparr>,
                             cl_totalSeconds = 300, cl_activeCycleId = Some ''0''\<rparr>\<rparr>"
  by (simp add: ex_created ex_finished ex_finished_again del: step.simps)

lemma run_finished_interrupt:
  "run Home_init [Submit ''a'' 5 0 0, Tick 300000 (\<lambda>i. 300000), Interrupt (\<lambda>i. 301000)] =
     Some \<lparr>cycles = [\<lparr>id_cycle = ''0'', task = ''a'', minutesAmount = 5, startDate = 0,
                       interruptedDate = Some 301000, finishedDate = Some 300000\<rparr>],
           activeCycleId = None, amountSecondsPassed = 300, interval = None\<rparr>"
  by (simp add: ex_created ex_finished ex_finished_interrupt del: step.simps)

section \<open>The finish branch and the Active Cycle Reference\<close>

text \<open>
  Claim C1. The claim: after the tick that sets \<open>finishedDate\<close> on the active cycle, the
  Active Cycle Reference is none. The code: no firing of the timer changes
  \<open>activeCycleId\<close>, whatever the state and the clock; the finish branch sets
  \<open>finishedDate\<close>, sets the counter and clears the interval, and never calls
  \<open>setActiveCycleId\<close> (as \<open>handleInterruptCycle\<close> does). For the five-minute cycle created
  at time 0, the tick at 300000 ms sets \<open>finishedDate\<close> and leaves the reference at the
  cycle's id \<open>''0''\<close>.
\<close>

theorem finish_tick_keeps_activeCycleId:
  "activeCycleId (tick now now_finished s) = activeCycleId s
   \<and> map_option (\<lambda>s. (map finishedDate (cycles s), activeCycleId s))
         (run Home_init [Submit ''a'' 5 0 0, Tick 300000 (\<lambda>i. 300000)])
       = Some ([Some 300000], Some ''0'')"
proof -
  have "activeCycleId (tick now now_finished s) = activeCycleId s"
    by (simp add: tick_def interval_callback_def Let_def split: option.split)
  then show ?thesis
    by (simp add: run_finished del: run.simps)
qed

text \<open>
  Claim C3. The claim: in every reachable state the Active Cycle Reference, if set, refers
  to a stored cycle with neither \<open>interruptedDate\<close> nor \<open>finishedDate\<close>. The code: the state
  reached by creating the five-minute cycle and letting the timer fire at 300000 ms has
  its reference set, and the cycle it refers to has \<open>finishedDate\<close> set.
\<close>

theorem reachable_reference_to_finished_cycle:
  "map_option (\<lambda>s. (activeCycleId s, map_option finishedDate (activeCycle s)))
     (run Home_init [Submit ''a'' 5 0 0, Tick 300000 (\<lambda>i. 300000)])
   = Some (Some ''0'', Some (Some 300000))"
  by (simp add: run_finished activeCycle_def del: run.simps)

text \<open>
  Claim C4. The claim: at most one of \<open>interruptedDate\<close> and \<open>finishedDate\<close> is set on a
  cycle, and a date once set is never changed. The code: after the cycle has finished the
  interface still offers the interrupt button (the reference is still set), and the
  interrupt adds \<open>interruptedDate\<close> to the finished cycle.
\<close>

theorem finished_cycle_interrupted_too:
  "map_option (\<lambda>s. map (\<lambda>c. (finishedDate c, interruptedDate c)) (cycles s))
     (run Home_init [Submit ''a'' 5 0 0, Tick 300000 (\<lambda>i. 300000), Interrupt (\<lambda>i. 301000)])
   = Some [(Some 300000, Some 301000)]"
  by (simp add: run_finished_interrupt del: run.simps)

text \<open>
  Claim C5. The claim: a tick computes the elapsed whole seconds from the clock; when they
  reach \<open>totalSeconds\<close> it sets the counter to \<open>totalSeconds\<close>, marks the cycle finished and
  stops ticking, so that no later tick changes \<open>finishedDate\<close>. The code: the finish branch
  clears its interval, but it rewrites the active cycle while the reference stays set, so
  the effect runs again and sets a new interval. After the tick at 300000 ms an interval
  is pending; the tick at 301000 ms overwrites \<open>finishedDate\<close>.
\<close>

theorem ticks_continue_after_finish:
  "map_option (\<lambda>s. (map finishedDate (cycles s), amountSecondsPassed s, interval s \<noteq> None))
     (run Home_init [Submit ''a'' 5 0 0, Tick 300000 (\<lambda>i. 300000)])
   = Some ([Some 300000], 300, True)
   \<and> map_option (\<lambda>s. (map finishedDate (cycles s), amountSecondsPassed s, interval s \<noteq> None))
     (run Home_init [Submit ''a'' 5 0 0, Tick 300000 (\<lambda>i. 300000), Tick 301000 (\<lambda>i. 301000)])
   = Some ([Some 301000], 300, True)"
  by (simp add: run_finished run_finished_again del: run.simps)

section \<open>Creating and interrupting a cycle\<close>

lemma activeCycle_Home_init: "activeCycle Home_init = None"
  by (simp add: activeCycle_def Home_init_def)

lemma map_cycles_same: "map_cycles (\<lambda>i c. c) cs = cs"
  by (intro nth_equalityI) (simp_all add: nth_map_cycles)

lemma find_never: "find (\<lambda>x. False) xs = None"
  by (induction xs) simp_all

text \<open>
  Claim C6. For every valid input (a non-empty task, a number of minutes between 5 and 60)
  submitted when no cycle is active, the submission is accepted and creation appends
  exactly one new cycle whose \<open>startDate\<close> is the clock reading and whose
  \<open>interruptedDate\<close> and \<open>finishedDate\<close> are unset, sets the Active Cycle Reference to the
  new cycle's id and resets the Elapsed-Seconds Counter to 0.
\<close>

theorem create_appends_and_activates:
  assumes "data_task \<noteq> []" and "5 \<le> data_minutesAmount" and "data_minutesAmount \<le> 60"
    and "activeCycle s = None"
  shows "step s (Submit data_task data_minutesAmount now_id now_start)
           = Some (handleCreateNewCycle data_task data_minutesAmount now_id now_start s)
         \<and> cycles (handleCreateNewCycle data_task data_minutesAmount now_id now_start s)
           = cycles s @ [\<lparr>id_cycle = String_number now_id, task = data_task,
                           minutesAmount = data_minutesAmount, startDate = now_start,
                           interruptedDate = None, finishedDate = None\<rparr>]
         \<and> activeCycleId (handleCreateNewCycle data_task data_minutesAmount now_id now_start s)
           = Some (String_number now_id)
         \<and> amountSecondsPassed (handleCreateNewCycle data_task data_minutesAmount now_id now_start s)
           = 0"
proof -
  have "1 \<le> length data_task"
    using assms(1) by (cases data_task) simp_all
  then have "newCycleFormValidationSchema data_task data_minutesAmount"
    using assms(2,3) by (simp add: newCycleFormValidationSchema_def)
  then show ?thesis
    using assms(4) by (simp add: newCycle_def)
qed

theorem create_appends_and_activates_witness:
  "''a'' \<noteq> [] \<and> (5::int) \<le> 5 \<and> (5::int) \<le> 60 \<and> activeCycle Home_init = None
   \<and> step Home_init (Submit ''a'' 5 0 0) = Some (handleCreateNewCycle ''a'' 5 0 0 Home_init)
   \<and> cycles (handleCreateNewCycle ''a'' 5 0 0 Home_init)
       = [\<lparr>id_cycle = ''0'', task = ''a'', minutesAmount = 5, startDate = 0,
           interruptedDate = None, finishedDate = None\<rparr>]
   \<and> activeCycleId (handleCreateNewCycle ''a'' 5 0 0 Home_init) = Some ''0''
   \<and> amountSecondsPassed (handleCreateNewCycle ''a'' 5 0 0 Home_init) = 0"
proof -
  have h: "''a'' \<noteq> []" "(5::int) \<le> 5" "(5::int) \<le> 60" "activeCycle Home_init = None"
    by (simp_all add: activeCycle_Home_init)
  from create_appends_and_activates [OF h, of 0 0] h show ?thesis
    by (simp add: String_number_0 Home_init_def del: step.simps)
qed

text \<open>
  Claim C9. If an active cycle exists, \<open>handleInterruptCycle\<close> sets that cycle's
  \<open>interruptedDate\<close> to the clock reading and clears the Active Cycle Reference. If no
  active cycle exists it leaves every cycle of the store and the counter unchanged, and
  with no reference and no pending interval it returns the state it was given. The
  handler has no failing path: it is a total function of the state.
\<close>

theorem interrupt_active_or_noop:
  "(activeCycle s = Some c \<longrightarrow>
      c \<in> set (cycles s)
      \<and> length (cycles (handleInterruptCycle now s)) = length (cycles s)
      \<and> (\<forall>i<length (cycles s). cycles s ! i = c \<longrightarrow>
            cycles (handleInterruptCycle now s) ! i = c\<lparr>interruptedDate := Some (now i)\<rparr>)
      \<and> activeCycleId (handleInterruptCycle now s) = None)
   \<and> (activeCycle s = None \<longrightarrow>
      cycles (handleInterruptCycle now s) = cycles s
      \<and> amountSecondsPassed (handleInterruptCycle now s) = amountSecondsPassed s
      \<and> activeCycleId (handleInterruptCycle now s) = None)
   \<and> (activeCycleId s = None \<and> interval s = None \<longrightarrow> handleInterruptCycle now s = s)"
proof (intro conjI impI)
  assume a: "activeCycle s = Some c"
  show "c \<in> set (cycles s)" using a by (rule activeCycle_SomeD)
  show "length (cycles (handleInterruptCycle now s)) = length (cycles s)" by simp
  show "\<forall>i<length (cycles s). cycles s ! i = c \<longrightarrow>
            cycles (handleInterruptCycle now s) ! i = c\<lparr>interruptedDate := Some (now i)\<rparr>"
    using activeCycle_SomeD(2) [OF a] by (simp add: nth_map_cycles)
  show "activeCycleId (handleInterruptCycle now s) = None" by simp
next
  assume n: "activeCycle s = None"
  then have "\<forall>c\<in>set (cycles s). Some (id_cycle c) \<noteq> activeCycleId s"
    by (simp add: activeCycle_None_iff)
  then have "map_cycles (\<lambda>i cycle. if Some (id_cycle cycle) = activeCycleId s
                   then cycle\<lparr>interruptedDate := Some (now i)\<rparr> else cycle) (cycles s)
               = cycles s"
    by (rule map_cycles_unchanged)
  then show "cycles (handleInterruptCycle now s) = cycles s" by simp
  show "amountSecondsPassed (handleInterruptCycle now s) = amountSecondsPassed s" by simp
  show "activeCycleId (handleInterruptCycle now s) = None" by simp
next
  assume "activeCycleId s = None \<and> interval s = None"
  then show "handleInterruptCycle now s = s"
    by (cases s)
      (simp add: handleInterruptCycle_def handleInterruptCycle_updates_def Let_def
        useEffect_interval_def activeCycle_def rewritten_def find_never map_cycles_same)
qed

theorem interrupt_active_or_noop_witness:
  "activeCycle
     \<lparr>cycles = [\<lparr>id_cycle = ''0'', task = ''a'', minutesAmount = 5, startDate = 0,
                 interruptedDate = None, finishedDate = None\<rparr>],
      activeCycleId = Some ''0'', amountSecondsPassed = 10,
      interval = Some \<lparr>cl_activeCycle =
                          \<lparr>id_cycle = ''0'', task = ''a'', minutesAmount = 5, startDate = 0,
                           interruptedDate = None, finishedDate = None\<rparr>,
                        cl_totalSeconds = 300, cl_activeCycleId = Some ''0''\<rparr>\<rparr>
     = Some \<lparr>id_cycle = ''0'', task = ''a'', minutesAmount = 5, startDate = 0,
             interruptedDate = None, finishedDate = None\<rparr>
   \<and> handleInterruptCycle (\<lambda>i. 10000)
     \<lparr>cycles = [\<lparr>id_cycle = ''0'', task = ''a'', minutesAmount = 5, startDate = 0,
                 interruptedDate = None, finishedDate = None\<rparr>],
      activeCycleId = Some ''0'', amountSecondsPassed = 10,
      interval = Some \<lparr>cl_activeCycle =
                          \<lparr>id_cycle = ''0'', task = ''a'', minutesAmount = 5, startDate = 0,
                           interruptedDate = None, finishedDate = None\<rparr>,
                        cl_totalSeconds = 300, cl_activeCycleId = Some ''0''\<rparr>\<rparr>
     = \<lparr>cycles = [\<lparr>id_cycle = ''0'', task = ''a'', minutesAmount = 5, startDate = 0,
                   interruptedDate = Some 10000, finishedDate = None\<rparr>],
        activeCycleId = None, amountSecondsPassed = 10, interval = None\<rparr>
   \<and> activeCycle
     \<lparr>cycles = [\<lparr>id_cycle = ''0'', task = ''a'', minutesAmount = 5, startDate = 0,
                 interruptedDate = Some 10000, finishedDate = None\<rparr>],
      activeCycleId = None, amountSecondsPassed = 10, interval = None\<rparr> = None
   \<and> handleInterruptCycle (\<lambda>i. 20000)
     \<lparr>cycles = [\<lparr>id_cycle = ''0'', task = ''a'', minutesAmount = 5, startDate = 0,
                 interruptedDate = Some 10000, finishedDate = None\<rparr>],
      activeCycleId = None, amountSecondsPassed = 10, interval = None\<rparr>
     = \<lparr>cycles = [\<lparr>id_cycle = ''0'', task = ''a'', minutesAmount = 5, startDate = 0,
                   interruptedDate = Some 10000, finishedDate = None\<rparr>],
        activeCycleId = None, amountSecondsPassed = 10, interval = None\<rparr>"
  using
    interrupt_active_or_noop
      [of "\<lparr>cycles = [\<lparr>id_cycle = ''0'', task = ''a'', minutesAmount = 5, startDate = 0,
                 interruptedDate = None, finishedDate = None\<rparr>],
      activeCycleId = Some ''0'', amountSecondsPassed = 10,
      interval = Some \<lparr>cl_activeCycle =
                          \<lparr>id_cycle = ''0'', task = ''a'', minutesAmount = 5, startDate = 0,
                           interruptedDate = None, finishedDate = None\<rparr>,
                        cl_totalSeconds = 300, cl_activeCycleId = Some ''0''\<rparr>\<rparr>"
          "\<lparr>id_cycle = ''0'', task = ''a'', minutesAmount = 5, startDate = 0,
             interruptedDate = None, finishedDate = None\<rparr>" "\<lambda>i. 10000"]
    interrupt_active_or_noop
      [of "\<lparr>cycles = [\<lparr>id_cycle = ''0'', task = ''a'', minutesAmount = 5, startDate = 0,
                 interruptedDate = Some 10000, finishedDate = None\<rparr>],
      activeCycleId = None, amountSecondsPassed = 10, interval = None\<rparr>" _ "\<lambda>i. 20000"]
  by (simp add: eval_defs)

section \<open>The countdown shown\<close>

lemma digits_of_two:
  assumes "n < 100"
  shows "padStart (digits_of n) 2 CHR ''0'' = [digit_char (n div 10), digit_char (n mod 10)]"
proof (cases "n < 10")
  case True
  then show ?thesis
    by (simp add: digits_of.simps padStart_def digit_char_def)
next
  case False
  then have "n div 10 < 10" using assms by simp
  with False show ?thesis
    by (simp add: digits_of.simps [of n] digits_of.simps [of "n div 10"] padStart_def)
qed

lemma String_number_two:
  assumes "0 \<le> k" and "k < 100"
  shows "padStart (String_number k) 2 CHR ''0''
           = [digit_char (nat (k div 10)), digit_char (nat (k mod 10))]"
proof -
  have "nat k < 100" using assms by simp
  then have "padStart (digits_of (nat k)) 2 CHR ''0''
               = [digit_char (nat k div 10), digit_char (nat k mod 10)]"
    by (rule digits_of_two)
  moreover have "nat k div 10 = nat (k div 10)" "nat k mod 10 = nat (k mod 10)"
    using assms(1) by (simp_all add: nat_div_distrib nat_mod_distrib)
  ultimately show ?thesis
    using assms(1) by (simp add: String_number_def)
qed

lemma ex_tick65:
  "step \<lparr>cycles = [\<lparr>id_cycle = ''0'', task = ''a'', minutesAmount = 5, startDate = 0,
                       interruptedDate = None, finishedDate = None\<rparr>],
           activeCycleId = Some ''0'', amountSecondsPassed = 0,
           interval = Some \<lparr>cl_activeCycle =
                               \<lparr>id_cycle = ''0'', task = ''a'', minutesAmount = 5, startDate = 0,
                                interruptedDate = None, finishedDate = None\<rparr>,
                             cl_totalSeconds = 300, cl_activeCycleId = Some ''0''\<rparr>\<rparr>
        (Tick 65000 (\<lambda>i. 65000)) =
     Some \<lparr>cycles = [\<lparr>id_cycle = ''0'', task = ''a'', minutesAmount = 5, startDate = 0,
                       interruptedDate = None, finishedDate = None\<rparr>],
           activeCycleId = Some ''0'', amountSecondsPassed = 65,
           interval = Some \<lparr>cl_activeCycle =
                               \<lparr>id_cycle = ''0'', task = ''a'', minutesAmount = 5, startDate = 0,
                                interruptedDate = None, finishedDate = None\<rparr>,
                             cl_totalSeconds = 300, cl_activeCycleId = Some ''0''\<rparr>\<rparr>"
  by (simp add: eval_defs)

lemma run_tick65:
  "run Home_init [Submit ''a'' 5 0 0, Tick 65000 (\<lambda>i. 65000)] =
     Some \<lparr>cycles = [\<lparr>id_cycle = ''0'', task = ''a'', minutesAmount = 5, startDate = 0,
                       interruptedDate = None, finishedDate = None\<rparr>],
           activeCycleId = Some ''0'', amountSecondsPassed = 65,
           interval = Some \<lparr>cl_activeCycle =
                               \<lparr>id_cycle = ''0'', task = ''a'', minutesAmount = 5, startDate = 0,
                                interruptedDate = None, finishedDate = None\<rparr>,
                             cl_totalSeconds = 300, cl_activeCycleId = Some ''0''\<rparr>\<rparr>"
  by (simp add: ex_created ex_tick65 del: step.simps)

lemmas display_defs = display_def minutes_def seconds_def minutesAmount_render_def
  secondsAmount_def currentSeconds_def js_rem_def padStart_def String_number_def

text \<open>
  Claim C8. The displayed value is derived from \<open>remaining = totalSeconds - elapsed\<close> as
  \<open>minutes = floor (remaining / 60)\<close> and \<open>seconds = remaining % 60\<close>, each shown as two
  digits with a leading zero (for a remaining time from 0 up to, but not including, 6000
  seconds, where the minutes have at most two digits). With no
  active cycle the display reads \<open>00:00\<close>; a fresh five-minute cycle shows \<open>05:00\<close>, and
  \<open>03:55\<close> after a tick 65 seconds after its start.
\<close>

theorem display_derivation:
  "(activeCycle s = None \<longrightarrow> display s = ''00:00'')
   \<and> (activeCycle s = Some c \<and> r = minutesAmount c * 60 - amountSecondsPassed s
        \<and> 0 \<le> r \<and> r < 6000 \<longrightarrow>
        currentSeconds s = r
        \<and> minutesAmount_render s = r div 60
        \<and> secondsAmount s = r mod 60
        \<and> display s = [digit_char (nat (r div 60 div 10)), digit_char (nat (r div 60 mod 10)),
                        CHR '':'',
                        digit_char (nat (r mod 60 div 10)), digit_char (nat (r mod 60 mod 10))])
   \<and> map_option display (run Home_init [Submit ''a'' 5 0 0]) = Some ''05:00''
   \<and> map_option display (run Home_init [Submit ''a'' 5 0 0, Tick 65000 (\<lambda>i. 65000)]) = Some ''03:55''"
proof (intro conjI impI)
  assume "activeCycle s = None"
  then show "display s = ''00:00''"
    by (simp add: display_defs digits_of.simps digit_char_def)
next
  assume a: "activeCycle s = Some c \<and> r = minutesAmount c * 60 - amountSecondsPassed s
        \<and> 0 \<le> r \<and> r < 6000"
  then show cur: "currentSeconds s = r"
    by (simp add: currentSeconds_def totalSeconds_def)
  then show m: "minutesAmount_render s = r div 60"
    by (simp add: minutesAmount_render_def)
  from cur a show sec: "secondsAmount s = r mod 60"
    by (simp add: secondsAmount_def js_rem_def)
  from a have "0 \<le> r" and "r < 6000" by simp_all
  then have "0 \<le> r div 60" "r div 60 < 100" "0 \<le> r mod 60" "r mod 60 < 100"
    by presburger+
  then have "minutes s = [digit_char (nat (r div 60 div 10)), digit_char (nat (r div 60 mod 10))]"
    and "seconds s = [digit_char (nat (r mod 60 div 10)), digit_char (nat (r mod 60 mod 10))]"
    using m sec by (simp_all add: minutes_def seconds_def String_number_two)
  then show "display s = [digit_char (nat (r div 60 div 10)), digit_char (nat (r div 60 mod 10)),
                        CHR '':'',
                        digit_char (nat (r mod 60 div 10)), digit_char (nat (r mod 60 mod 10))]"
    by (simp add: display_def)
next
  show "map_option display (run Home_init [Submit ''a'' 5 0 0]) = Some ''05:00''"
    by (simp add: run_created display_defs totalSeconds_def activeCycle_def digits_of.simps
        digit_char_def del: run.simps)
next
  show "map_option display (run Home_init [Submit ''a'' 5 0 0, Tick 65000 (\<lambda>i. 65000)]) = Some ''03:55''"
    by (simp add: run_tick65 display_defs totalSeconds_def activeCycle_def digits_of.simps
        digit_char_def del: run.simps)
qed

theorem display_derivation_witness:
  "activeCycle Home_init = None \<and> display Home_init = ''00:00''
   \<and> activeCycle
       \<lparr>cycles = [\<lparr>id_cycle = ''0'', task = ''a'', minutesAmount = 25, startDate = 0,
                   interruptedDate = None, finishedDate = None\<rparr>],
        activeCycleId = Some ''0'', amountSecondsPassed = 83, interval = None\<rparr>
     = Some \<lparr>id_cycle = ''0'', task = ''a'', minutesAmount = 25, startDate = 0,
             interruptedDate = None, finishedDate = None\<rparr>
   \<and> (1417::int) = 25 * 60 - 83 \<and> (0::int) \<le> 1417 \<and> (1417::int) < 6000
   \<and> display
       \<lparr>cycles = [\<lparr>id_cycle = ''0'', task = ''a'', minutesAmount = 25, startDate = 0,
                   interruptedDate = None, finishedDate = None\<rparr>],
        activeCycleId = Some ''0'', amountSecondsPassed = 83, interval = None\<rparr>
     = ''23:37''"
proof -
  let ?C = "\<lparr>id_cycle = ''0'', task = ''a'', minutesAmount = 25, startDate = 0,
             interruptedDate = None, finishedDate = None\<rparr>"
  let ?S = "\<lparr>cycles = [?C], activeCycleId = Some ''0'', amountSecondsPassed = 83,
             interval = None\<rparr>"
  have n: "activeCycle Home_init = None"
    by (rule activeCycle_Home_init)
  have a: "activeCycle ?S = Some ?C"
    by (simp add: activeCycle_def)
  from display_derivation [of Home_init] n have d0: "display Home_init = ''00:00''"
    by blast
  from display_derivation [of ?S ?C 1417] a have "display ?S =
      [digit_char (nat (1417 div 60 div 10)), digit_char (nat (1417 div 60 mod 10)), CHR '':'',
       digit_char (nat (1417 mod 60 div 10)), digit_char (nat (1417 mod 60 mod 10))]"
    by simp
  then have d1: "display ?S = ''23:37''"
    by (simp add: digit_char_def)
  from n a d0 d1 show ?thesis by simp
qed

section \<open>Invariants of the states the interface can reach\<close>

lemma store_inv_init: "store_inv Home_init"
  by (simp add: store_inv_def Home_init_def activeCycle_def)

lemma no_running_filter: "(\<forall>c\<in>set cs. \<not> running c) \<Longrightarrow> filter running cs = []"
  by (simp add: filter_empty_conv)

lemma store_inv_no_running:
  assumes "\<forall>c\<in>set (cycles s). \<not> running c"
    and "activeCycle s = None \<longrightarrow> activeCycleId s = None"
    and "\<forall>c\<in>set (cycles s). 5 \<le> minutesAmount c \<and> minutesAmount c \<le> 60"
  shows "store_inv s"
  using assms by (simp add: store_inv_def no_running_filter)

lemma store_inv_idle:
  assumes "store_inv s" and "activeCycle s = None"
  shows "activeCycleId s = None" and "\<forall>c\<in>set (cycles s). \<not> running c"
proof -
  show r: "activeCycleId s = None"
    using assms by (simp add: store_inv_def)
  show "\<forall>c\<in>set (cycles s). \<not> running c"
    using assms(1) r by (auto simp: store_inv_def)
qed

lemma store_inv_create:
  assumes "store_inv s" and "activeCycle s = None"
    and "newCycleFormValidationSchema t m"
  shows "store_inv (handleCreateNewCycle t m n1 n2 s)"
proof -
  let ?s' = "handleCreateNewCycle t m n1 n2 s"
  have none: "\<forall>c\<in>set (cycles s). \<not> running c"
    using assms(1,2) by (rule store_inv_idle)
  have new: "running (newCycle t m n1 n2)" "id_cycle (newCycle t m n1 n2) = String_number n1"
    "minutesAmount (newCycle t m n1 n2) = m"
    by (simp_all add: running_def newCycle_def)
  have 1: "\<forall>c\<in>set (cycles ?s'). running c \<longrightarrow> activeCycleId ?s' = Some (id_cycle c)"
    using none new by auto
  have 2: "length (filter running (cycles ?s')) \<le> 1"
    using none by (simp add: no_running_filter)
  have "activeCycle ?s' \<noteq> None"
    using new(2) by (auto simp: activeCycle_None_iff)
  then have 3: "activeCycle ?s' = None \<longrightarrow> activeCycleId ?s' = None"
    by simp
  have 4: "\<forall>c\<in>set (cycles ?s'). 5 \<le> minutesAmount c \<and> minutesAmount c \<le> 60"
    using assms(1,3) new(3) by (auto simp: store_inv_def newCycleFormValidationSchema_def)
  from 1 2 3 4 show ?thesis
    unfolding store_inv_def by blast
qed

lemma store_inv_rewrite:
  assumes inv: "store_inv s"
    and g: "\<And>i c. \<not> running (g i c)" "\<And>i c. minutesAmount (g i c) = minutesAmount c"
  shows "\<forall>c\<in>set (map_cycles (\<lambda>i c. if Some (id_cycle c) = activeCycleId s then g i c else c)
                       (cycles s)). \<not> running c"
    and "\<forall>c\<in>set (map_cycles (\<lambda>i c. if Some (id_cycle c) = activeCycleId s then g i c else c)
                       (cycles s)). 5 \<le> minutesAmount c \<and> minutesAmount c \<le> 60"
proof -
  have run: "\<And>c. c \<in> set (cycles s) \<Longrightarrow> running c \<Longrightarrow> activeCycleId s = Some (id_cycle c)"
    and bound: "\<And>c. c \<in> set (cycles s) \<Longrightarrow> 5 \<le> minutesAmount c \<and> minutesAmount c \<le> 60"
    using inv by (simp_all add: store_inv_def)
  have pick: "\<exists>i c. c \<in> set (cycles s)
                \<and> c' = (if Some (id_cycle c) = activeCycleId s then g i c else c)"
    if "c' \<in> set (map_cycles (\<lambda>i c. if Some (id_cycle c) = activeCycleId s then g i c else c)
                       (cycles s))" for c'
  proof -
    from in_set_map_cycles [OF that] obtain i where i: "i < length (cycles s)"
      "c' = (if Some (id_cycle (cycles s ! i)) = activeCycleId s
             then g i (cycles s ! i) else cycles s ! i)"
      by blast
    have "cycles s ! i \<in> set (cycles s)"
      using i(1) by simp
    with i(2) show ?thesis by blast
  qed
  show "\<forall>c\<in>set (map_cycles (\<lambda>i c. if Some (id_cycle c) = activeCycleId s then g i c else c)
                       (cycles s)). \<not> running c"
  proof
    fix c'
    assume "c' \<in> set (map_cycles (\<lambda>i c. if Some (id_cycle c) = activeCycleId s then g i c else c)
                         (cycles s))"
    then obtain i c where c: "c \<in> set (cycles s)"
      "c' = (if Some (id_cycle c) = activeCycleId s then g i c else c)"
      using pick by blast
    show "\<not> running c'"
    proof (cases "Some (id_cycle c) = activeCycleId s")
      case True
      then have "c' = g i c" using c(2) by simp
      then show ?thesis by (simp add: g(1))
    next
      case False
      then have "c' = c" using c(2) by simp
      moreover have "\<not> running c"
        using run [OF c(1)] False by auto
      ultimately show ?thesis by simp
    qed
  qed
  show "\<forall>c\<in>set (map_cycles (\<lambda>i c. if Some (id_cycle c) = activeCycleId s then g i c else c)
                       (cycles s)). 5 \<le> minutesAmount c \<and> minutesAmount c \<le> 60"
  proof
    fix c'
    assume "c' \<in> set (map_cycles (\<lambda>i c. if Some (id_cycle c) = activeCycleId s then g i c else c)
                         (cycles s))"
    then obtain i c where c: "c \<in> set (cycles s)"
      "c' = (if Some (id_cycle c) = activeCycleId s then g i c else c)"
      using pick by blast
    have "minutesAmount c' = minutesAmount c"
      using c(2) by (simp add: g(2))
    then show "5 \<le> minutesAmount c' \<and> minutesAmount c' \<le> 60"
      using bound [OF c(1)] by simp
  qed
qed

lemma store_inv_interrupt:
  assumes "store_inv s"
  shows "store_inv (handleInterruptCycle now s)"
proof -
  let ?f = "\<lambda>i cycle. if Some (id_cycle cycle) = activeCycleId s
                    then cycle\<lparr>interruptedDate := Some (now i)\<rparr> else cycle"
  let ?s' = "handleInterruptCycle now s"
  have cyc: "cycles ?s' = map_cycles ?f (cycles s)"
    by simp
  have r: "\<forall>c\<in>set (map_cycles ?f (cycles s)). \<not> running c"
    by (rule store_inv_rewrite(1) [OF assms]) (simp_all add: running_def)
  have m: "\<forall>c\<in>set (map_cycles ?f (cycles s)). 5 \<le> minutesAmount c \<and> minutesAmount c \<le> 60"
    by (rule store_inv_rewrite(2) [OF assms]) (simp_all add: running_def)
  show ?thesis
  proof (rule store_inv_no_running)
    show "\<forall>c\<in>set (cycles ?s'). \<not> running c"
      unfolding cyc by (rule r)
    show "activeCycle ?s' = None \<longrightarrow> activeCycleId ?s' = None"
      by simp
    show "\<forall>c\<in>set (cycles ?s'). 5 \<le> minutesAmount c \<and> minutesAmount c \<le> 60"
      unfolding cyc by (rule m)
  qed
qed

lemma store_inv_tick:
  assumes "store_inv s" and "interval_current s"
  shows "store_inv (tick now now_finished s)"
proof (cases "activeCycle s")
  case None
  then have "interval s = None"
    using assms(2) by (simp add: interval_current_def)
  then show ?thesis using assms(1) by (simp add: tick_def)
next
  case (Some c)
  let ?f = "\<lambda>i cycle. if Some (id_cycle cycle) = activeCycleId s
                    then cycle\<lparr>finishedDate := Some (now_finished i)\<rparr> else cycle"
  let ?s' = "tick now now_finished s"
  note tf = tick_fields [OF assms(2) Some, of now now_finished]
  have r: "\<forall>c\<in>set (map_cycles ?f (cycles s)). \<not> running c"
    by (rule store_inv_rewrite(1) [OF assms(1)]) (simp_all add: running_def)
  have m: "\<forall>c\<in>set (map_cycles ?f (cycles s)). 5 \<le> minutesAmount c \<and> minutesAmount c \<le> 60"
    by (rule store_inv_rewrite(2) [OF assms(1)]) (simp_all add: running_def)
  have "interval_current ?s'"
    using assms(2) by (rule interval_current_tick)
  then have act: "activeCycle ?s' \<noteq> None"
    using tf(4) by (auto simp: interval_current_def split: option.splits)
  show ?thesis
  proof (cases "differenceInSeconds now (startDate c) \<ge> minutesAmount c * 60")
    case True
    have cyc: "cycles ?s' = map_cycles ?f (cycles s)"
      using True tf(1) by simp
    show ?thesis
    proof (rule store_inv_no_running)
      show "\<forall>c\<in>set (cycles ?s'). \<not> running c"
        unfolding cyc by (rule r)
      show "activeCycle ?s' = None \<longrightarrow> activeCycleId ?s' = None"
        using act by blast
      show "\<forall>c\<in>set (cycles ?s'). 5 \<le> minutesAmount c \<and> minutesAmount c \<le> 60"
        unfolding cyc by (rule m)
    qed
  next
    case False
    have cyc: "cycles ?s' = cycles s"
      using False tf(1) by simp
    have "activeCycle ?s' = None \<longrightarrow> activeCycleId ?s' = None"
      using act by blast
    then show ?thesis
      using assms(1) cyc tf(3) by (simp add: store_inv_def)
  qed
qed

lemma store_inv_step:
  assumes "store_inv s" and "interval_current s" and "step s e = Some s'"
  shows "store_inv s'"
proof (cases e)
  case (Submit t m n1 n2)
  with assms(3) have "activeCycle s = None" "newCycleFormValidationSchema t m"
    "s' = handleCreateNewCycle t m n1 n2 s"
    by (simp_all split: if_splits)
  with assms(1) show ?thesis by (simp add: store_inv_create)
next
  case (Interrupt now)
  with assms(3) have "s' = handleInterruptCycle now s"
    by (simp split: if_splits)
  with assms(1) show ?thesis by (simp add: store_inv_interrupt)
next
  case (Tick now now_finished)
  with assms(3) have "s' = tick now now_finished s"
    by (simp split: if_splits)
  with assms(1,2) show ?thesis by (simp add: store_inv_tick)
qed

lemma invs_run:
  "store_inv s \<Longrightarrow> interval_current s \<Longrightarrow> run s es = Some s'
     \<Longrightarrow> store_inv s' \<and> interval_current s'"
proof (induction es arbitrary: s)
  case Nil
  then show ?case by simp
next
  case (Cons e es)
  from Cons.prems(3) obtain s1 where s1: "step s e = Some s1" "run s1 es = Some s'"
    by (auto split: option.splits)
  have "store_inv s1"
    using Cons.prems(1,2) s1(1) by (rule store_inv_step)
  moreover have "interval_current s1"
    using Cons.prems(2) s1(1) by (rule interval_current_step)
  ultimately show ?case
    using s1(2) by (rule Cons.IH)
qed

lemma reachable_invs:
  "run Home_init es = Some s \<Longrightarrow> store_inv s \<and> interval_current s"
  using invs_run [OF store_inv_init interval_current_init] .

section \<open>No creation while a cycle is active\<close>

lemma String_number_20000: "String_number 20000 = ''20000''"
  by (simp add: String_number_def digit_char_def digits_of.simps)

lemma run_interrupted:
  "run Home_init [Submit ''a'' 5 0 0, Interrupt (\<lambda>i. 10000)] =
     Some \<lparr>cycles = [\<lparr>id_cycle = ''0'', task = ''a'', minutesAmount = 5, startDate = 0,
                       interruptedDate = Some 10000, finishedDate = None\<rparr>],
           activeCycleId = None, amountSecondsPassed = 0, interval = None\<rparr>"
  by (simp add: Home_init_def eval_defs String_number_0)

text \<open>
  Claim C2. In every state in which an active cycle exists a creation attempt is rejected:
  the store never appends a second cycle and never repoints the Active Cycle Reference
  while a cycle is active. \<open>handleCreateNewCycle\<close> is called only by the form, which renders
  the submit button and enables its inputs only while no active cycle is found. In every
  state reachable through the interface, a submission is refused while an active cycle
  exists; when one is accepted, the Active Cycle Reference is unset and every stored
  cycle is interrupted or finished, and afterwards the new cycle is the only running one.
  At most one cycle is running in every reachable state.
\<close>

theorem creation_only_without_active_cycle:
  assumes "run Home_init es = Some s"
  shows "(activeCycle s \<noteq> None \<longrightarrow>
            step s (Submit data_task data_minutesAmount now_id now_start) = None)
         \<and> (step s (Submit data_task data_minutesAmount now_id now_start) = Some s' \<longrightarrow>
              activeCycleId s = None
              \<and> (\<forall>c\<in>set (cycles s). interruptedDate c \<noteq> None \<or> finishedDate c \<noteq> None)
              \<and> filter running (cycles s')
                  = [newCycle data_task data_minutesAmount now_id now_start])
         \<and> length (filter running (cycles s)) \<le> 1"
proof (intro conjI impI)
  have inv: "store_inv s"
    using reachable_invs [OF assms] by simp
  show "activeCycle s \<noteq> None \<Longrightarrow>
          step s (Submit data_task data_minutesAmount now_id now_start) = None"
    by simp
  show "length (filter running (cycles s)) \<le> 1"
    using inv by (simp add: store_inv_def)
  assume st: "step s (Submit data_task data_minutesAmount now_id now_start) = Some s'"
  then have idle: "activeCycle s = None"
    and s': "s' = handleCreateNewCycle data_task data_minutesAmount now_id now_start s"
    by (simp_all split: if_splits)
  show "activeCycleId s = None"
    using inv idle by (rule store_inv_idle)
  have none: "\<forall>c\<in>set (cycles s). \<not> running c"
    using inv idle by (rule store_inv_idle)
  then show "\<forall>c\<in>set (cycles s). interruptedDate c \<noteq> None \<or> finishedDate c \<noteq> None"
    by (simp add: running_def)
  have "running (newCycle data_task data_minutesAmount now_id now_start)"
    by (simp add: running_def newCycle_def)
  then show "filter running (cycles s')
               = [newCycle data_task data_minutesAmount now_id now_start]"
    using none by (simp add: s' no_running_filter)
qed

theorem creation_only_without_active_cycle_witness:
  "run Home_init [Submit ''a'' 5 0 0] =
     Some \<lparr>cycles = [\<lparr>id_cycle = ''0'', task = ''a'', minutesAmount = 5, startDate = 0,
                       interruptedDate = None, finishedDate = None\<rparr>],
           activeCycleId = Some ''0'', amountSecondsPassed = 0,
           interval = Some \<lparr>cl_activeCycle =
                               \<lparr>id_cycle = ''0'', task = ''a'', minutesAmount = 5, startDate = 0,
                                interruptedDate = None, finishedDate = None\<rparr>,
                             cl_totalSeconds = 300, cl_activeCycleId = Some ''0''\<rparr>\<rparr>
   \<and> step \<lparr>cycles = [\<lparr>id_cycle = ''0'', task = ''a'', minutesAmount = 5, startDate = 0,
                       interruptedDate = None, finishedDate = None\<rparr>],
           activeCycleId = Some ''0'', amountSecondsPassed = 0,
           interval = Some \<lparr>cl_activeCycle =
                               \<lparr>id_cycle = ''0'', task = ''a'', minutesAmount = 5, startDate = 0,
                                interruptedDate = None, finishedDate = None\<rparr>,
                             cl_totalSeconds = 300, cl_activeCycleId = Some ''0''\<rparr>\<rparr>
        (Submit ''b'' 10 1000 1000) = None
   \<and> run Home_init [Submit ''a'' 5 0 0, Interrupt (\<lambda>i. 10000)] =
     Some \<lparr>cycles = [\<lparr>id_cycle = ''0'', task = ''a'', minutesAmount = 5, startDate = 0,
                       interruptedDate = Some 10000, finishedDate = None\<rparr>],
           activeCycleId = None, amountSecondsPassed = 0, interval = None\<rparr>
   \<and> step \<lparr>cycles = [\<lparr>id_cycle = ''0'', task = ''a'', minutesAmount = 5, startDate = 0,
                       interruptedDate = Some 10000, finishedDate = None\<rparr>],
           activeCycleId = None, amountSecondsPassed = 0, interval = None\<rparr>
        (Submit ''b'' 10 20000 20000)
     = Some (handleCreateNewCycle ''b'' 10 20000 20000
              \<lparr>cycles = [\<lparr>id_cycle = ''0'', task = ''a'', minutesAmount = 5, startDate = 0,
                          interruptedDate = Some 10000, finishedDate = None\<rparr>],
               activeCycleId = None, amountSecondsPassed = 0, interval = None\<rparr>)
   \<and> filter running
        (cycles (handleCreateNewCycle ''b'' 10 20000 20000
              \<lparr>cycles = [\<lparr>id_cycle = ''0'', task = ''a'', minutesAmount = 5, startDate = 0,
                          interruptedDate = Some 10000, finishedDate = None\<rparr>],
               activeCycleId = None, amountSecondsPassed = 0, interval = None\<rparr>))
     = [\<lparr>id_cycle = ''20000'', task = ''b'', minutesAmount = 10, startDate = 20000,
         interruptedDate = None, finishedDate = None\<rparr>]"
proof -
  let ?A = "\<lparr>id_cycle = ''0'', task = ''a'', minutesAmount = 5, startDate = 0,
             interruptedDate = None, finishedDate = None\<rparr>"
  let ?S1 = "\<lparr>cycles = [?A], activeCycleId = Some ''0'', amountSecondsPassed = 0,
              interval = Some \<lparr>cl_activeCycle = ?A, cl_totalSeconds = 300,
                               cl_activeCycleId = Some ''0''\<rparr>\<rparr>"
  let ?S2 = "\<lparr>cycles = [?A\<lparr>interruptedDate := Some 10000\<rparr>], activeCycleId = None,
              amountSecondsPassed = 0, interval = None\<rparr>"
  let ?S3 = "handleCreateNewCycle ''b'' 10 20000 20000 ?S2"
  have a1: "activeCycle ?S1 \<noteq> None"
    by (simp add: activeCycle_def)
  have r2: "run Home_init [Submit ''a'' 5 0 0, Interrupt (\<lambda>i. 10000)] = Some ?S2"
    using run_interrupted by simp
  have st: "step ?S2 (Submit ''b'' 10 20000 20000) = Some ?S3"
    by (simp add: activeCycle_def newCycleFormValidationSchema_def)
  from creation_only_without_active_cycle [OF run_created, of "''b''" 10 1000 1000] a1
  have 1: "step ?S1 (Submit ''b'' 10 1000 1000) = None"
    by blast
  from creation_only_without_active_cycle [OF r2, of "''b''" 10 20000 20000 ?S3] st
  have "filter running (cycles ?S3) = [newCycle ''b'' 10 20000 20000]"
    by blast
  then have 2: "filter running (cycles ?S3)
      = [\<lparr>id_cycle = ''20000'', task = ''b'', minutesAmount = 10, startDate = 20000,
          interruptedDate = None, finishedDate = None\<rparr>]"
    by (simp add: newCycle_def String_number_20000)
  from run_created 1 r2 st 2 show ?thesis
    by (simp del: step.simps run.simps create_fields)
qed

section \<open>Which cycles an interrupt rewrites\<close>

text \<open>
  Claim C10. Every store operation preserves the data it does not target: creation
  appends without modifying an existing cycle, and interrupt and finish each modify only
  the single cycle whose id equals the Active Cycle Reference. The code: the id of a
  cycle is the millisecond at which it was created, and the \<open>map\<close> of
  \<open>handleInterruptCycle\<close> rewrites every cycle of the active id. A cycle is created and
  interrupted and a second one created, all within the millisecond 7: both carry the id
  \<open>''7''\<close>. The interrupt that follows, with the clock at 20 and 21 in its two calls,
  rewrites both cycles, and overwrites the \<open>interruptedDate\<close> of the first one, which was
  interrupted before.
\<close>

theorem interrupt_rewrites_every_cycle_of_the_id:
  "run Home_init [Submit ''a'' 5 7 7, Interrupt (\<lambda>i. 7), Submit ''b'' 10 7 7] =
     Some \<lparr>cycles = [\<lparr>id_cycle = ''7'', task = ''a'', minutesAmount = 5, startDate = 7,
                       interruptedDate = Some 7, finishedDate = None\<rparr>,
                     \<lparr>id_cycle = ''7'', task = ''b'', minutesAmount = 10, startDate = 7,
                       interruptedDate = None, finishedDate = None\<rparr>],
           activeCycleId = Some ''7'', amountSecondsPassed = 0,
           interval = Some \<lparr>cl_activeCycle =
                               \<lparr>id_cycle = ''7'', task = ''a'', minutesAmount = 5, startDate = 7,
                                interruptedDate = Some 7, finishedDate = None\<rparr>,
                             cl_totalSeconds = 300, cl_activeCycleId = Some ''7''\<rparr>\<rparr>
   \<and> run Home_init [Submit ''a'' 5 7 7, Interrupt (\<lambda>i. 7), Submit ''b'' 10 7 7,
                     Interrupt (\<lambda>i. 20 + int i)] =
     Some \<lparr>cycles = [\<lparr>id_cycle = ''7'', task = ''a'', minutesAmount = 5, startDate = 7,
                       interruptedDate = Some 20, finishedDate = None\<rparr>,
                     \<lparr>id_cycle = ''7'', task = ''b'', minutesAmount = 10, startDate = 7,
                       interruptedDate = Some 21, finishedDate = None\<rparr>],
           activeCycleId = None, amountSecondsPassed = 0, interval = None\<rparr>"
  by (simp add: Home_init_def eval_defs String_number_7)

text \<open>
  Apart from that, the operations keep what the claim says they keep. Creation appends.
  Interrupt and the finish branch keep the length of the list, rewrite exactly the cycles
  of the active id, and change nothing but the one date; where the ids of the stored
  cycles are pairwise distinct, at most one cycle is rewritten.
\<close>

lemma interrupt_frame:
  "cycles (handleCreateNewCycle data_task data_minutesAmount now_id now_start s)
     = cycles s @ [newCycle data_task data_minutesAmount now_id now_start]"
  "length (cycles (handleInterruptCycle now s)) = length (cycles s)"
  "i < length (cycles s) \<Longrightarrow>
     cycles (handleInterruptCycle now s) ! i
       = (if Some (id_cycle (cycles s ! i)) = activeCycleId s
          then (cycles s ! i)\<lparr>interruptedDate := Some (now i)\<rparr> else cycles s ! i)"
  by (simp_all add: nth_map_cycles)

lemma finish_frame:
  assumes "interval_current s" and "activeCycle s = Some c"
  shows "length (cycles (tick now now_finished s)) = length (cycles s)"
    and "i < length (cycles s) \<Longrightarrow>
     cycles (tick now now_finished s) ! i
       = (if differenceInSeconds now (startDate c) \<ge> minutesAmount c * 60
             \<and> Some (id_cycle (cycles s ! i)) = activeCycleId s
          then (cycles s ! i)\<lparr>finishedDate := Some (now_finished i)\<rparr> else cycles s ! i)"
  by (simp_all add: tick_fields(1) [OF assms] nth_map_cycles)

lemma one_cycle_of_an_id:
  assumes "distinct (map id_cycle cs)" and "i < length cs" and "j < length cs"
    and "Some (id_cycle (cs ! i)) = target" and "Some (id_cycle (cs ! j)) = target"
  shows "i = j"
proof -
  have "id_cycle (cs ! i) = id_cycle (cs ! j)"
    using assms(4,5) by (metis option.inject)
  then show ?thesis
    using assms(1-3) nth_eq_iff_index_eq [of "map id_cycle cs" i j] by simp
qed

lemma interrupt_rewrites_one_cycle:
  assumes "distinct (map id_cycle (cycles s))"
    and "i < length (cycles s)" and "j < length (cycles s)"
    and "cycles (handleInterruptCycle now s) ! i \<noteq> cycles s ! i"
    and "cycles (handleInterruptCycle now s) ! j \<noteq> cycles s ! j"
  shows "i = j"
proof (rule one_cycle_of_an_id [OF assms(1-3)])
  show "Some (id_cycle (cycles s ! i)) = activeCycleId s"
    using assms(2,4) by (auto simp: nth_map_cycles split: if_splits)
  show "Some (id_cycle (cycles s ! j)) = activeCycleId s"
    using assms(3,5) by (auto simp: nth_map_cycles split: if_splits)
qed

section \<open>The Elapsed-Seconds Counter across ticks\<close>

lemma differenceInSeconds_nonneg:
  "dateRight \<le> dateLeft \<Longrightarrow> 0 \<le> differenceInSeconds dateLeft dateRight"
  by (simp add: differenceInSeconds_def)

lemma differenceInSeconds_mono:
  "dateRight \<le> a \<Longrightarrow> a \<le> b \<Longrightarrow>
     differenceInSeconds a dateRight \<le> differenceInSeconds b dateRight"
  by (simp add: differenceInSeconds_def zdiv_mono1)

lemma tick_counter:
  assumes cur: "interval_current s" and act: "activeCycle s = Some c"
  shows "step s (Tick now now_finished) = Some (tick now now_finished s)"
    and "interval_current (tick now now_finished s)"
    and "\<exists>c'. activeCycle (tick now now_finished s) = Some c'
               \<and> startDate c' = startDate c \<and> minutesAmount c' = minutesAmount c"
    and "amountSecondsPassed (tick now now_finished s)
           = min (differenceInSeconds now (startDate c)) (minutesAmount c * 60)"
proof -
  have "interval s \<noteq> None"
    using cur act by (simp add: interval_current_def)
  then show "step s (Tick now now_finished) = Some (tick now now_finished s)"
    by simp
  show cur': "interval_current (tick now now_finished s)"
    using cur by (rule interval_current_tick)
  from tick_current [OF cur act, of now now_finished] obtain k where
    k: "tick now now_finished s =
     (if differenceInSeconds now (startDate c) \<ge> minutesAmount c * 60 then
        s\<lparr>cycles := map_cycles
                       (\<lambda>i cycle. if Some (id_cycle cycle) = activeCycleId s
                                   then cycle\<lparr>finishedDate := Some (now_finished i)\<rparr>
                                   else cycle)
                       (cycles s),
          amountSecondsPassed := minutesAmount c * 60,
          interval := Some \<lparr>cl_activeCycle = c\<lparr>finishedDate := Some (now_finished k)\<rparr>,
                            cl_totalSeconds = minutesAmount c * 60,
                            cl_activeCycleId = activeCycleId s\<rparr>\<rparr>
      else s\<lparr>amountSecondsPassed := differenceInSeconds now (startDate c)\<rparr>)" ..
  show "\<exists>c'. activeCycle (tick now now_finished s) = Some c'
               \<and> startDate c' = startDate c \<and> minutesAmount c' = minutesAmount c"
  proof (cases "differenceInSeconds now (startDate c) \<ge> minutesAmount c * 60")
    case True
    then have "interval (tick now now_finished s)
                 = Some \<lparr>cl_activeCycle = c\<lparr>finishedDate := Some (now_finished k)\<rparr>,
                         cl_totalSeconds = minutesAmount c * 60,
                         cl_activeCycleId = activeCycleId s\<rparr>"
      by (simp add: k)
    then have "activeCycle (tick now now_finished s)
                 = Some (c\<lparr>finishedDate := Some (now_finished k)\<rparr>)"
      using cur' by (auto simp: interval_current_def split: option.splits)
    then show ?thesis by simp
  next
    case False
    then have "activeCycle (tick now now_finished s) = activeCycle s"
      by (simp add: k activeCycle_def)
    then show ?thesis using act by simp
  qed
  show "amountSecondsPassed (tick now now_finished s)
           = min (differenceInSeconds now (startDate c)) (minutesAmount c * 60)"
    by (simp add: tick_fields(2) [OF cur act] min_def)
qed

lemma ticks_counter:
  assumes "interval_current s" and "activeCycle s = Some c"
    and "startDate c = start" and "minutesAmount c = mins" and "0 \<le> mins"
    and "0 \<le> amountSecondsPassed s" and "amountSecondsPassed s \<le> mins * 60"
    and "sorted (map fst ts)"
    and "\<forall>t\<in>set ts. start \<le> fst t \<and> amountSecondsPassed s \<le> differenceInSeconds (fst t) start"
  shows "length (run_trace s (map (\<lambda>(now, now_finished). Tick now now_finished) ts)) = length ts
    \<and> sorted (map amountSecondsPassed
                (s # run_trace s (map (\<lambda>(now, now_finished). Tick now now_finished) ts)))
    \<and> (\<forall>s'\<in>set (run_trace s (map (\<lambda>(now, now_finished). Tick now now_finished) ts)).
          0 \<le> amountSecondsPassed s' \<and> amountSecondsPassed s' \<le> mins * 60
          \<and> totalSeconds s' = mins * 60)"
  using assms
proof (induction ts arbitrary: s c)
  case Nil
  then show ?case by simp
next
  case (Cons t ts)
  obtain now now_finished where t: "t = (now, now_finished)"
    by (cases t)
  let ?s1 = "tick now now_finished s"
  let ?evs = "map (\<lambda>(now, now_finished). Tick now now_finished) ts"
  note tc = tick_counter [OF Cons.prems(1,2), of now now_finished]
  from tc(3) obtain c' where c': "activeCycle ?s1 = Some c'" "startDate c' = start"
    "minutesAmount c' = mins"
    using Cons.prems(3,4) by auto
  have now: "start \<le> now" "amountSecondsPassed s \<le> differenceInSeconds now start"
    using Cons.prems(9) t by simp_all
  have cnt: "amountSecondsPassed ?s1 = min (differenceInSeconds now start) (mins * 60)"
    using tc(4) Cons.prems(3,4) by simp
  have lo: "0 \<le> amountSecondsPassed ?s1"
    using cnt differenceInSeconds_nonneg [OF now(1)] Cons.prems(5) by simp
  have hi: "amountSecondsPassed ?s1 \<le> mins * 60"
    using cnt by simp
  have up: "amountSecondsPassed s \<le> amountSecondsPassed ?s1"
    using cnt now(2) Cons.prems(7) by simp
  have tot: "totalSeconds ?s1 = mins * 60"
    using c' by (simp add: totalSeconds_def)
  have later: "\<forall>u\<in>set ts. start \<le> fst u
                 \<and> amountSecondsPassed ?s1 \<le> differenceInSeconds (fst u) start"
  proof
    fix u assume u: "u \<in> set ts"
    then have "now \<le> fst u"
      using Cons.prems(8) t by auto
    moreover have "start \<le> fst u"
      using Cons.prems(9) u by simp
    ultimately have "differenceInSeconds now start \<le> differenceInSeconds (fst u) start"
      using now(1) by (simp add: differenceInSeconds_mono)
    then show "start \<le> fst u \<and> amountSecondsPassed ?s1 \<le> differenceInSeconds (fst u) start"
      using cnt \<open>start \<le> fst u\<close> by simp
  qed
  have srt: "sorted (map fst ts)"
    using Cons.prems(8) by simp
  note IH = Cons.IH [OF tc(2) c'(1) c'(2) c'(3) Cons.prems(5) lo hi srt later]
  have tr: "run_trace s (map (\<lambda>(now, now_finished). Tick now now_finished) (t # ts))
              = ?s1 # run_trace ?s1 ?evs"
    using tc(1) t by simp
  show ?case
    unfolding tr using IH up lo hi tot by fastforce
qed

text \<open>
  Claim C7. A cycle becomes active by an accepted submission in a reachable state, which
  resets the Elapsed-Seconds Counter to 0. While that cycle stays active and the timer
  fires with clock readings that do not decrease and are not before the cycle's
  \<open>startDate\<close>, every firing is taken, the counter never decreases from one tick to the
  next, and after every tick it lies between 0 and \<open>totalSeconds\<close>, which is
  \<open>minutesAmount * 60\<close> throughout.
\<close>

theorem counter_monotone_and_clamped:
  assumes "run Home_init es = Some s0"
    and "step s0 (Submit data_task data_minutesAmount now_id now_start) = Some s"
    and "activeCycle s = Some c"
    and "sorted (map fst ts)"
    and "\<forall>t\<in>set ts. startDate c \<le> fst t"
  shows "amountSecondsPassed s = 0
    \<and> totalSeconds s = minutesAmount c * 60
    \<and> length (run_trace s (map (\<lambda>(now, now_finished). Tick now now_finished) ts)) = length ts
    \<and> sorted (map amountSecondsPassed
                (s # run_trace s (map (\<lambda>(now, now_finished). Tick now now_finished) ts)))
    \<and> (\<forall>s'\<in>set (run_trace s (map (\<lambda>(now, now_finished). Tick now now_finished) ts)).
          0 \<le> amountSecondsPassed s' \<and> amountSecondsPassed s' \<le> minutesAmount c * 60
          \<and> totalSeconds s' = minutesAmount c * 60)"
proof -
  have inv0: "store_inv s0" "interval_current s0"
    using reachable_invs [OF assms(1)] by simp_all
  have inv: "store_inv s"
    using inv0 assms(2) by (rule store_inv_step)
  have cur: "interval_current s"
    using inv0(2) assms(2) by (rule interval_current_step)
  have "s = handleCreateNewCycle data_task data_minutesAmount now_id now_start s0"
    using assms(2) by (simp split: if_splits)
  then have zero: "amountSecondsPassed s = 0"
    by simp
  have "c \<in> set (cycles s)"
    using assms(3) by (rule activeCycle_SomeD)
  then have mins: "0 \<le> minutesAmount c"
    using inv by (auto simp: store_inv_def)
  have tot: "totalSeconds s = minutesAmount c * 60"
    using assms(3) by (simp add: totalSeconds_def)
  have ts: "\<forall>t\<in>set ts. startDate c \<le> fst t
              \<and> amountSecondsPassed s \<le> differenceInSeconds (fst t) (startDate c)"
    using assms(5) zero by (simp add: differenceInSeconds_nonneg)
  have "0 \<le> amountSecondsPassed s" "amountSecondsPassed s \<le> minutesAmount c * 60"
    using zero mins by simp_all
  from ticks_counter [OF cur assms(3) refl refl mins this assms(4) ts] zero tot
  show ?thesis by simp
qed

theorem counter_monotone_and_clamped_witness:
  "run Home_init [] = Some Home_init
   \<and> step Home_init (Submit ''a'' 5 0 0) =
     Some \<lparr>cycles = [\<lparr>id_cycle = ''0'', task = ''a'', minutesAmount = 5, startDate = 0,
                       interruptedDate = None, finishedDate = None\<rparr>],
           activeCycleId = Some ''0'', amountSecondsPassed = 0,
           interval = Some \<lparr>cl_activeCycle =
                               \<lparr>id_cycle = ''0'', task = ''a'', minutesAmount = 5, startDate = 0,
                                interruptedDate = None, finishedDate = None\<rparr>,
                             cl_totalSeconds = 300, cl_activeCycleId = Some ''0''\<rparr>\<rparr>
   \<and> sorted [65000, 300000, 301000 :: int]
   \<and> map amountSecondsPassed
       (run_trace
          \<lparr>cycles = [\<lparr>id_cycle = ''0'', task = ''a'', minutesAmount = 5, startDate = 0,
                       interruptedDate = None, finishedDate = None\<rparr>],
           activeCycleId = Some ''0'', amountSecondsPassed = 0,
           interval = Some \<lparr>cl_activeCycle =
                               \<lparr>id_cycle = ''0'', task = ''a'', minutesAmount = 5, startDate = 0,
                                interruptedDate = None, finishedDate = None\<rparr>,
                             cl_totalSeconds = 300, cl_activeCycleId = Some ''0''\<rparr>\<rparr>
          [Tick 65000 (\<lambda>i. 65000), Tick 300000 (\<lambda>i. 300000), Tick 301000 (\<lambda>i. 301000)])
     = [65, 300, 300]
   \<and> sorted (0 # [65, 300, 300 :: int])"
proof -
  let ?A = "\<lparr>id_cycle = ''0'', task = ''a'', minutesAmount = 5, startDate = 0,
             interruptedDate = None, finishedDate = None\<rparr>"
  let ?S1 = "\<lparr>cycles = [?A], activeCycleId = Some ''0'', amountSecondsPassed = 0,
              interval = Some \<lparr>cl_activeCycle = ?A, cl_totalSeconds = 300,
                               cl_activeCycleId = Some ''0''\<rparr>\<rparr>"
  let ?ts = "[(65000, \<lambda>i. 65000), (300000, \<lambda>i. 300000), (301000, \<lambda>i. 301000)]
               :: (int \<times> (nat \<Rightarrow> int)) list"
  have r0: "run Home_init [] = Some Home_init"
    by simp
  have a: "activeCycle ?S1 = Some ?A"
    by (simp add: activeCycle_def)
  have srt: "sorted (map fst ?ts)"
    by simp
  have after: "\<forall>t\<in>set ?ts. startDate ?A \<le> fst t"
    by simp
  have tr: "map amountSecondsPassed
              (run_trace ?S1 [Tick 65000 (\<lambda>i. 65000), Tick 300000 (\<lambda>i. 300000), Tick 301000 (\<lambda>i. 301000)])
            = [65, 300, 300]"
    by (simp add: eval_defs)
  from counter_monotone_and_clamped [OF r0 ex_created a srt after]
  have "sorted (map amountSecondsPassed
          (?S1 # run_trace ?S1 [Tick 65000 (\<lambda>i. 65000), Tick 300000 (\<lambda>i. 300000), Tick 301000 (\<lambda>i. 301000)]))"
    by simp
  then have "sorted (0 # [65, 300, 300 :: int])"
    using tr by simp
  with r0 ex_created tr show ?thesis
    by (simp del: step.simps run_trace.simps)
qed

end
